theory Spec2Isabelle
  imports Complex_Main "HOL-Library.Word"
begin

section \<open>The pixelation worker and the palette parser of pixas-web\<close>

text \<open>
  The development embeds \<^verbatim>\<open>apps/web/src/workers/pixelate.worker.ts\<close> (the current
  version, with the classic and the perceptual colour mapper) and the palette parser of
  \<^verbatim>\<open>apps/web/src/routes/index.tsx\<close>.

  Conventions of the embedding:
  \<^item> an element of a \<^verbatim>\<open>Uint8ClampedArray\<close> is a \<open>byte\<close> (an 8-bit word);
  \<^item> a JavaScript number that can be \<^verbatim>\<open>NaN\<close> or \<^verbatim>\<open>Infinity\<close> is a value of
    \<open>jsnum\<close>; the finite numbers are mathematical integers or reals, so the rounding of
    IEEE-754 arithmetic and of \<^verbatim>\<open>Float32Array\<close> stores is not part of the model,
    while the wrap-around of the \<^verbatim>\<open>Int16Array\<close> of shortlisted indices is;
  \<^item> a read of a typed array beyond its length yields \<^verbatim>\<open>undefined\<close>, here \<open>None\<close>;
  \<^item> the canvas, the PNG encoder and the availability of a 2d context are parameters
    (a record \<open>env\<close>);
  \<^item> an uncaught exception ends a message handler: the handler emits nothing and the
    assignments it made before stay.
\<close>

subsection \<open>Numbers and typed arrays\<close>

type_synonym byte = "8 word"

datatype 'a jsnum = Num 'a | PInf | NaN

text \<open>The comparison \<^verbatim>\<open>x < y\<close> of JavaScript: false as soon as an operand is NaN.\<close>

fun num_lt :: "'a::linorder jsnum \<Rightarrow> 'a jsnum \<Rightarrow> bool" where
  "num_lt (Num x) (Num y) = (x < y)"
| "num_lt (Num x) PInf = True"
| "num_lt _ _ = False"

text \<open>\<^verbatim>\<open>arr[i]\<close> on a typed array: \<^verbatim>\<open>undefined\<close> beyond the length.\<close>

definition rd :: "byte list \<Rightarrow> nat \<Rightarrow> byte option" where
  "rd xs i = (if i < length xs then Some (xs ! i) else None)"

text \<open>
  Storing into a \<^verbatim>\<open>Uint8ClampedArray\<close>: \<^verbatim>\<open>undefined\<close> converts to NaN and NaN to 0.
\<close>

definition stored :: "byte option \<Rightarrow> byte" where
  "stored v = (case v of Some x \<Rightarrow> x | None \<Rightarrow> 0)"

definition toUint8Clamp :: "int jsnum \<Rightarrow> byte" where
  "toUint8Clamp v =
     (case v of NaN \<Rightarrow> 0 | PInf \<Rightarrow> 255 | Num n \<Rightarrow> word_of_int (max 0 (min 255 n)))"

definition RGBA_STRIDE :: nat where "RGBA_STRIDE = 4"
definition CHANNEL_R :: nat where "CHANNEL_R = 0"
definition CHANNEL_G :: nat where "CHANNEL_G = 1"
definition CHANNEL_B :: nat where "CHANNEL_B = 2"
definition CHANNEL_A :: nat where "CHANNEL_A = 3"
definition TRANSPARENT_ALPHA :: byte where "TRANSPARENT_ALPHA = 0"

lemmas channel_defs =
  RGBA_STRIDE_def CHANNEL_R_def CHANNEL_G_def CHANNEL_B_def CHANNEL_A_def TRANSPARENT_ALPHA_def

subsection \<open>mapImageDataToPaletteClassic\<close>

text \<open>
  The offsets \<^verbatim>\<open>p = 0, 4, 8, ...\<close> visited by
  \<^verbatim>\<open>for (let p = 0; p < paletteLen; p += RGBA_STRIDE)\<close>.
\<close>

definition palette_offsets :: "nat \<Rightarrow> nat list" where
  "palette_offsets paletteLen =
     map (\<lambda>j. j * RGBA_STRIDE) [0..<(paletteLen + (RGBA_STRIDE - 1)) div RGBA_STRIDE]"

text \<open>
  One iteration of the inner loop. A channel read beyond the palette is
  \<^verbatim>\<open>undefined\<close>, the subtraction is then NaN and so is \<^verbatim>\<open>dist\<close>.
\<close>

definition classic_scan_step ::
  "byte list \<Rightarrow> int \<Rightarrow> int \<Rightarrow> int \<Rightarrow> nat \<Rightarrow> nat \<times> int jsnum \<Rightarrow> nat \<times> int jsnum" where
  "classic_scan_step palette r g b p best =
     (let dist =
        (case (rd palette (p + CHANNEL_R), rd palette (p + CHANNEL_G), rd palette (p + CHANNEL_B)) of
           (Some pr, Some pg, Some pb) \<Rightarrow>
             (let dr = uint pr - r; dg = uint pg - g; db = uint pb - b
              in Num (dr * dr + dg * dg + db * db))
         | _ \<Rightarrow> NaN)
      in if num_lt dist (snd best) then (p, dist) else best)"

definition classic_best :: "byte list \<Rightarrow> int \<Rightarrow> int \<Rightarrow> int \<Rightarrow> nat" where
  "classic_best palette r g b =
     fst (fold (classic_scan_step palette r g b) (palette_offsets (length palette)) (0, PInf))"

text \<open>The body of the outer loop at offset \<open>i\<close> of the pixel buffer.\<close>

definition classic_pixel :: "byte list \<Rightarrow> nat \<Rightarrow> byte list \<Rightarrow> byte list" where
  "classic_pixel palette i d =
     (let r = uint (d ! (i + CHANNEL_R));
          g = uint (d ! (i + CHANNEL_G));
          b = uint (d ! (i + CHANNEL_B));
          a = d ! (i + CHANNEL_A)
      in if a = TRANSPARENT_ALPHA then d
         else
           (let bestIndex = classic_best palette r g b
            in d[i + CHANNEL_R := stored (rd palette (bestIndex + CHANNEL_R)),
                 i + CHANNEL_G := stored (rd palette (bestIndex + CHANNEL_G)),
                 i + CHANNEL_B := stored (rd palette (bestIndex + CHANNEL_B)),
                 i + CHANNEL_A := stored (rd palette (bestIndex + CHANNEL_A))]))"

text \<open>
  The buffer of an \<^verbatim>\<open>ImageData\<close> has four bytes for each pixel, so the loop
  \<^verbatim>\<open>for (let i = 0; i < d.length; i += RGBA_STRIDE)\<close> runs once for each of its
  \<open>length d div 4\<close> pixels.
\<close>

definition mapImageDataToPaletteClassic :: "byte list \<Rightarrow> byte list \<Rightarrow> byte list" where
  "mapImageDataToPaletteClassic d palette =
     (if length palette < RGBA_STRIDE then d
      else fold (\<lambda>k. classic_pixel palette (k * RGBA_STRIDE)) [0..<length d div RGBA_STRIDE] d)"

subsection \<open>Colour space conversion\<close>

definition srgbToLinearComponent :: "real \<Rightarrow> real" where
  "srgbToLinearComponent c =
     (let cs = c / 255
      in if cs \<le> 0.04045 then cs / 12.92 else ((cs + 0.055) / 1.055) powr 2.4)"

definition rgbToXyz :: "real \<Rightarrow> real \<Rightarrow> real \<Rightarrow> real \<times> real \<times> real" where
  "rgbToXyz r g b =
     (let rl = srgbToLinearComponent r;
          gl = srgbToLinearComponent g;
          bl = srgbToLinearComponent b;
          x = 0.4124564 * rl + 0.3575761 * gl + 0.1804375 * bl;
          y = 0.2126729 * rl + 0.7151522 * gl + 0.072175 * bl;
          z = 0.0193339 * rl + 0.119192 * gl + 0.9503041 * bl
      in (x, y, z))"

definition xyzToLab :: "real \<Rightarrow> real \<Rightarrow> real \<Rightarrow> real \<times> real \<times> real" where
  "xyzToLab x y z =
     (let Xn = 0.95047; Yn = 1.0; Zn = 1.08883;
          d = 6 / 29;
          d3 = d * d * d;
          f = (\<lambda>t. if t > d3 then root 3 t else t / (3 * d * d) + 4 / 29);
          fx = f (x / Xn);
          fy = f (y / Yn);
          fz = f (z / Zn);
          L = 116 * fy - 16;
          a = 500 * (fx - fy);
          b = 200 * (fy - fz)
      in (L, a, b))"

definition rgbToLab :: "real \<Rightarrow> real \<Rightarrow> real \<Rightarrow> real \<times> real \<times> real" where
  "rgbToLab r g b = (case rgbToXyz r g b of (x, y, z) \<Rightarrow> xyzToLab x y z)"

text \<open>\<^verbatim>\<open>Math.hypot\<close> and \<^verbatim>\<open>Math.atan2\<close> on real numbers (there is one zero).\<close>

definition hypot :: "real \<Rightarrow> real \<Rightarrow> real" where
  "hypot x y = sqrt (x * x + y * y)"

definition atan2 :: "real \<Rightarrow> real \<Rightarrow> real" where
  "atan2 y x =
     (if x > 0 then arctan (y / x)
      else if x < 0 then (if y \<ge> 0 then arctan (y / x) + pi else arctan (y / x) - pi)
      else if y > 0 then pi / 2
      else if y < 0 then - (pi / 2)
      else 0)"

definition hueAngle :: "real \<Rightarrow> real \<Rightarrow> real" where
  "hueAngle a b = atan2 b a"

definition deltaHue :: "real \<Rightarrow> real \<Rightarrow> real \<Rightarrow> real \<Rightarrow> real" where
  "deltaHue a1 b1 a2 b2 =
     (let h1 = hueAngle a1 b1;
          h2 = hueAngle a2 b2;
          dh0 = h1 - h2;
          dh1 = (if dh0 > pi then dh0 - 2 * pi else dh0);
          dh2 = (if dh1 < - pi then dh1 + 2 * pi else dh1)
      in \<bar>dh2\<bar>)"

text \<open>CIEDE2000 with \<open>kL = kC = kH = 1\<close>, line by line.\<close>

definition deltaE00 :: "real \<Rightarrow> real \<Rightarrow> real \<Rightarrow> real \<Rightarrow> real \<Rightarrow> real \<Rightarrow> real" where
  "deltaE00 L1 a1 b1 L2 a2 b2 =
     (let avgLp = (L1 + L2) / 2;
          C1 = hypot a1 b1;
          C2 = hypot a2 b2;
          avgC = (C1 + C2) / 2;
          G = 0.5 * (1 - sqrt (avgC ^ 7 / (avgC ^ 7 + 25 ^ 7)));
          a1p = (1 + G) * a1;
          a2p = (1 + G) * a2;
          C1p = hypot a1p b1;
          C2p = hypot a2p b2;
          avgCp = (C1p + C2p) / 2;
          h1p = (if atan2 b1 a1p < 0 then atan2 b1 a1p + 2 * pi else atan2 b1 a1p);
          h2p = (if atan2 b2 a2p < 0 then atan2 b2 a2p + 2 * pi else atan2 b2 a2p);
          dhp0 = h2p - h1p;
          dhp = (if \<bar>dhp0\<bar> > pi then dhp0 - sgn dhp0 * 2 * pi else dhp0);
          dHp = 2 * sqrt (C1p * C2p) * sin (dhp / 2);
          dLp = L2 - L1;
          dCp = C2p - C1p;
          avgHp0 = h1p + h2p;
          avgHp1 = (if \<bar>h1p - h2p\<bar> > pi then avgHp0 + 2 * pi else avgHp0);
          avgHp = avgHp1 / 2;
          T = 1 - 0.17 * cos (avgHp - pi / 6) + 0.24 * cos (2 * avgHp)
                + 0.32 * cos (3 * avgHp + pi / 30) - 0.2 * cos (4 * avgHp - (63 * pi) / 180);
          Sl = 1 + (0.015 * (avgLp - 50) ^ 2) / sqrt (20 + (avgLp - 50) ^ 2);
          Sc = 1 + 0.045 * avgCp;
          Sh = 1 + 0.015 * avgCp * T;
          dTheta = (30 * pi) / 180 * exp (- (((180 / pi * avgHp - 275) / 25) ^ 2));
          Rc = 2 * sqrt (avgCp ^ 7 / (avgCp ^ 7 + 25 ^ 7));
          Rt = - Rc * sin (2 * dTheta);
          kl = 1; kc = 1; kh = 1;
          termL = dLp / (kl * Sl);
          termC = dCp / (kc * Sc);
          termH = dHp / (kh * Sh);
          dE = sqrt (termL * termL + termC * termC + termH * termH + Rt * termC * termH)
      in dE)"

subsection \<open>mapImageDataToPalette (the perceptual mapper)\<close>

definition TAU_L_LAB :: real where "TAU_L_LAB = 3.0"
definition TAU_C_LAB :: real where "TAU_C_LAB = 3.0"
definition LAMBDA_L :: real where "LAMBDA_L = 0.7"
definition LAMBDA_C :: real where "LAMBDA_C = 0.7"
definition LAMBDA_H :: real where "LAMBDA_H = 0.3"
definition HUE_SIGMA_SCALE_LAB :: real where "HUE_SIGMA_SCALE_LAB = 5.0"
definition C_NEUTRAL_GATE :: real where "C_NEUTRAL_GATE = 3.0"
definition C_NEUTRAL_BIAS :: real where "C_NEUTRAL_BIAS = 6.0"
definition KAPPA_NEUTRAL :: real where "KAPPA_NEUTRAL = 0.15"
definition K_SHORTLIST :: nat where "K_SHORTLIST = 8"

lemmas lab_param_defs =
  TAU_L_LAB_def TAU_C_LAB_def LAMBDA_L_def LAMBDA_C_def LAMBDA_H_def HUE_SIGMA_SCALE_LAB_def
  C_NEUTRAL_GATE_def C_NEUTRAL_BIAS_def KAPPA_NEUTRAL_def

record PaletteLab =
  pl_L :: real
  pl_a :: real
  pl_b :: real
  pl_C :: real
  pl_hue :: real
  pl_r :: byte
  pl_g :: byte
  pl_b8 :: byte
  pl_a8 :: byte

record ImageData =
  img_data :: "byte list"
  img_width :: nat
  img_height :: nat

text \<open>
  The Lab precompute at pixel \<open>idx\<close>: what the first pair of loops stores into
  \<^verbatim>\<open>Larr[idx]\<close>, \<^verbatim>\<open>Aarr[idx]\<close> and \<^verbatim>\<open>Barr[idx]\<close>. The arrays are
  \<^verbatim>\<open>Float32Array\<close>s: the code rounds each value to single precision, the model keeps it
  exact.
\<close>

definition labAt :: "byte list \<Rightarrow> nat \<Rightarrow> real \<times> real \<times> real" where
  "labAt d idx =
     (let i = idx * RGBA_STRIDE;
          a8 = d ! (i + CHANNEL_A)
      in if a8 = TRANSPARENT_ALPHA then (0, 0, 0)
         else
           (let r = d ! (i + CHANNEL_R);
                g = d ! (i + CHANNEL_G);
                b = d ! (i + CHANNEL_B)
            in rgbToLab (real_of_int (uint r)) (real_of_int (uint g)) (real_of_int (uint b))))"

definition Larr_of :: "byte list \<Rightarrow> nat \<Rightarrow> real list" where
  "Larr_of d numPixels = map (\<lambda>idx. fst (labAt d idx)) [0..<numPixels]"

definition Aarr_of :: "byte list \<Rightarrow> nat \<Rightarrow> real list" where
  "Aarr_of d numPixels = map (\<lambda>idx. fst (snd (labAt d idx))) [0..<numPixels]"

definition Barr_of :: "byte list \<Rightarrow> nat \<Rightarrow> real list" where
  "Barr_of d numPixels = map (\<lambda>idx. snd (snd (labAt d idx))) [0..<numPixels]"

text \<open>The palette entry at offset \<open>p\<close> of the flat palette, with its Lab attributes.\<close>

definition toPaletteLab :: "byte list \<Rightarrow> nat \<Rightarrow> PaletteLab" where
  "toPaletteLab palette p =
     (let pr = palette ! (p + CHANNEL_R);
          pg = palette ! (p + CHANNEL_G);
          pb = palette ! (p + CHANNEL_B);
          pa = palette ! (p + CHANNEL_A)
      in case rgbToLab (real_of_int (uint pr)) (real_of_int (uint pg)) (real_of_int (uint pb)) of
           (L, a, b) \<Rightarrow>
             \<lparr>pl_L = L, pl_a = a, pl_b = b, pl_C = hypot a b, pl_hue = hueAngle a b,
              pl_r = pr, pl_g = pg, pl_b8 = pb, pl_a8 = pa\<rparr>)"

text \<open>
  The indices \<^verbatim>\<open>idn\<close> of the in-bounds cells of the 3x3 window around \<open>(x, y)\<close>, in
  the order of the loops over \<^verbatim>\<open>dy\<close> and \<^verbatim>\<open>dx\<close>.
\<close>

definition window :: "nat \<Rightarrow> nat \<Rightarrow> int \<Rightarrow> int \<Rightarrow> nat list" where
  "window width height x y =
     concat (map (\<lambda>dy.
       let yy = y + dy
       in if yy < 0 \<or> yy \<ge> int height then []
          else concat (map (\<lambda>dx.
            let xx = x + dx
            in if xx < 0 \<or> xx \<ge> int width then []
               else [nat (yy * int width + xx)]) [-1, 0, 1])) [-1, 0, 1])"

definition hueWeightAt :: "nat \<Rightarrow> nat \<Rightarrow> real list \<Rightarrow> real list \<Rightarrow> int \<Rightarrow> int \<Rightarrow> real" where
  "hueWeightAt width height Aarr Barr x y =
     (let nb = window width height x y;
          sumA = (\<Sum>idn\<leftarrow>nb. Aarr ! idn);
          sumB = (\<Sum>idn\<leftarrow>nb. Barr ! idn);
          sumAA = (\<Sum>idn\<leftarrow>nb. Aarr ! idn * Aarr ! idn);
          sumBB = (\<Sum>idn\<leftarrow>nb. Barr ! idn * Barr ! idn);
          count = length nb
      in if count = 0 then 0
         else
           (let meanA = sumA / real count;
                meanB = sumB / real count;
                varA = max 0 (sumAA / real count - meanA * meanA);
                varB = max 0 (sumBB / real count - meanB * meanB);
                sigma = sqrt (varA + varB);
                w = 1 - min 1 (sigma / HUE_SIGMA_SCALE_LAB)
            in w))"

text \<open>A store into the \<^verbatim>\<open>Int16Array\<close> of shortlisted indices wraps to 16 signed bits.\<close>

definition int16 :: "int \<Rightarrow> int" where
  "int16 n = sint (word_of_int n :: 16 word)"

text \<open>The scan for the worst of the K shortlisted scores.\<close>

definition find_worst :: "real jsnum list \<Rightarrow> nat \<times> real jsnum" where
  "find_worst topScore =
     fold (\<lambda>k worst. if num_lt (snd worst) (topScore ! k) then (k, topScore ! k) else worst)
       [0..<K_SHORTLIST] (0, Num (- 1))"

text \<open>
  One palette entry offered to the shortlist. The score goes into a \<^verbatim>\<open>Float32Array\<close>:
  the code stores the distance rounded to single precision, the model stores it exact.
\<close>

definition shortlist_step ::
  "real \<Rightarrow> real \<Rightarrow> real \<Rightarrow> PaletteLab list \<Rightarrow> nat \<Rightarrow> int list \<times> real jsnum list
     \<Rightarrow> int list \<times> real jsnum list" where
  "shortlist_step Lr ar br pal pidx topK =
     (let pcol = pal ! pidx;
          base = deltaE00 Lr ar br (pl_L pcol) (pl_a pcol) (pl_b pcol);
          worst = find_worst (snd topK)
      in if num_lt (Num base) (snd worst)
         then ((fst topK)[fst worst := int16 (int pidx)], (snd topK)[fst worst := Num base])
         else topK)"

definition shortlist ::
  "real \<Rightarrow> real \<Rightarrow> real \<Rightarrow> PaletteLab list \<Rightarrow> int list \<times> real jsnum list" where
  "shortlist Lr ar br pal =
     fold (shortlist_step Lr ar br pal) [0..<length pal]
       (replicate K_SHORTLIST (- 1), replicate K_SHORTLIST PInf)"

fun num_plus :: "real jsnum \<Rightarrow> real \<Rightarrow> real jsnum" where
  "num_plus (Num x) y = Num (x + y)"
| "num_plus PInf y = PInf"
| "num_plus NaN y = NaN"

text \<open>The cost of one shortlisted candidate in the second pass.\<close>

definition adjusted_cost ::
  "real \<Rightarrow> real \<Rightarrow> real \<Rightarrow> real \<Rightarrow> real \<Rightarrow> PaletteLab \<Rightarrow> real jsnum \<Rightarrow> real jsnum" where
  "adjusted_cost Lr ar br Cr hWeight pcol base =
     (let dL = \<bar>Lr - pl_L pcol\<bar>;
          Lpen = LAMBDA_L * max 0 (dL - TAU_L_LAB);
          dC = \<bar>Cr - pl_C pcol\<bar>;
          Cpen = LAMBDA_C * max 0 (dC - TAU_C_LAB);
          Hpen = (if Cr \<ge> C_NEUTRAL_GATE
                  then LAMBDA_H * hWeight * (1 - cos (deltaHue ar br (pl_a pcol) (pl_b pcol)))
                  else 0);
          neutralBias = (if Cr < C_NEUTRAL_BIAS then KAPPA_NEUTRAL * pl_C pcol else 0)
      in num_plus (num_plus (num_plus (num_plus base Lpen) Cpen) Hpen) neutralBias)"

definition refine_step ::
  "real \<Rightarrow> real \<Rightarrow> real \<Rightarrow> real \<Rightarrow> real \<Rightarrow> PaletteLab list \<Rightarrow> int list \<Rightarrow> real jsnum list
     \<Rightarrow> nat \<Rightarrow> int \<times> real jsnum \<Rightarrow> int \<times> real jsnum" where
  "refine_step Lr ar br Cr hWeight pal topIdx topScore k best =
     (let pidx = topIdx ! k
      in if pidx < 0 then best
         else
           (let pcol = pal ! nat pidx;
                base = topScore ! k;
                cost = adjusted_cost Lr ar br Cr hWeight pcol base
            in if num_lt cost (snd best) then (pidx, cost) else best))"

definition refine ::
  "real \<Rightarrow> real \<Rightarrow> real \<Rightarrow> real \<Rightarrow> real \<Rightarrow> PaletteLab list \<Rightarrow> int list \<Rightarrow> real jsnum list
     \<Rightarrow> int" where
  "refine Lr ar br Cr hWeight pal topIdx topScore =
     fst (fold (refine_step Lr ar br Cr hWeight pal topIdx topScore) [0..<K_SHORTLIST]
            (if topIdx ! 0 \<ge> 0 then topIdx ! 0 else 0, PInf))"

text \<open>
  The body of the main mapping loop at \<open>(x, y)\<close>: the palette entry chosen for an
  opaque pixel, and the write of its four channels.
\<close>

definition perceptual_best ::
  "nat \<Rightarrow> nat \<Rightarrow> real list \<Rightarrow> real list \<Rightarrow> real list \<Rightarrow> PaletteLab list \<Rightarrow> nat \<Rightarrow> nat
     \<Rightarrow> PaletteLab" where
  "perceptual_best width height Larr Aarr Barr pal x y =
     (let idx = y * width + x;
          Lr = Larr ! idx;
          ar = Aarr ! idx;
          br = Barr ! idx;
          Cr = hypot ar br;
          hWeight = hueWeightAt width height Aarr Barr (int x) (int y);
          topK = shortlist Lr ar br pal;
          bestPi = refine Lr ar br Cr hWeight pal (fst topK) (snd topK)
      in pal ! nat bestPi)"

definition perceptual_pixel ::
  "nat \<Rightarrow> nat \<Rightarrow> real list \<Rightarrow> real list \<Rightarrow> real list \<Rightarrow> PaletteLab list \<Rightarrow> nat \<Rightarrow> nat
     \<Rightarrow> byte list \<Rightarrow> byte list" where
  "perceptual_pixel width height Larr Aarr Barr pal x y d =
     (let idx = y * width + x;
          i = idx * RGBA_STRIDE;
          a8 = d ! (i + CHANNEL_A)
      in if a8 = TRANSPARENT_ALPHA then d
         else
           (let best = perceptual_best width height Larr Aarr Barr pal x y
            in d[i + CHANNEL_R := pl_r best,
                 i + CHANNEL_G := pl_g best,
                 i + CHANNEL_B := pl_b8 best,
                 i + CHANNEL_A := pl_a8 best]))"

text \<open>
  The result is the new content of \<^verbatim>\<open>img.data\<close>. \<open>None\<close> is the RangeError of
  \<^verbatim>\<open>pal.length = paletteLen / RGBA_STRIDE\<close> when the length of the palette is not a
  multiple of four: it is thrown after the Lab precompute and before the first write to
  the buffer.
\<close>

definition mapImageDataToPalette :: "ImageData \<Rightarrow> byte list \<Rightarrow> byte list option" where
  "mapImageDataToPalette img palette =
     (let d = img_data img;
          paletteLen = length palette
      in if paletteLen < RGBA_STRIDE then Some d
         else
           (let width = img_width img;
                height = img_height img;
                numPixels = width * height;
                Larr = Larr_of d numPixels;
                Aarr = Aarr_of d numPixels;
                Barr = Barr_of d numPixels
            in if paletteLen mod RGBA_STRIDE \<noteq> 0 then None
               else
                 (let pal = map (\<lambda>k. toPaletteLab palette (k * RGBA_STRIDE))
                              [0..<paletteLen div RGBA_STRIDE]
                  in Some (fold (\<lambda>y. fold (\<lambda>x. perceptual_pixel width height Larr Aarr Barr pal x y)
                                          [0..<width])
                             [0..<height] d))))"

subsection \<open>The worker: session state and message handlers\<close>

record bitmap =
  bm_width :: nat
  bm_height :: nat
  bm_pixels :: "byte list"

type_synonym blob = "byte list"

record meta =
  outWidth :: int
  outHeight :: int
  tilesX :: int
  tilesY :: int
  totalPixels :: int
  blockSize :: int

text \<open>\<^verbatim>\<open>PixelateProcessMessage\<close>; an optional field that is absent is \<open>None\<close>.\<close>

record procmsg =
  pm_jobId :: int
  pm_blockSize :: int
  pm_bitmap :: "bitmap option"
  pm_colorizeEnabled :: "bool option"
  pm_advancedColorize :: "bool option"
  pm_palette :: "int jsnum list option"

datatype incoming = Process procmsg | Cancel int | GenerateBlob int

datatype outgoing = ResultMsg int bitmap meta | BlobMsg int blob

text \<open>The module-level variables of the worker.\<close>

record wstate =
  activeJobId :: "int option"
  lastRenderedJobId :: "int option"
  lastSourceBitmap :: "bitmap option"
  lastBlockSize :: "int option"
  lastPalette :: "byte list option"
  lastColorizeEnabled :: bool
  lastAdvancedColorize :: bool

definition initial_state :: wstate where
  "initial_state =
     \<lparr>activeJobId = None, lastRenderedJobId = None, lastSourceBitmap = None,
      lastBlockSize = None, lastPalette = None, lastColorizeEnabled = True,
      lastAdvancedColorize = True\<rparr>"

text \<open>
  The platform: whether \<^verbatim>\<open>getContext('2d')\<close> gives a context for a canvas of the given
  size, the pixels \<^verbatim>\<open>drawImage\<close> leaves on a canvas of that size, and the PNG encoder.
\<close>

record env =
  env_getContext :: "int \<Rightarrow> int \<Rightarrow> bool"
  env_drawImage :: "bitmap \<Rightarrow> int \<Rightarrow> int \<Rightarrow> byte list"
  env_convertToBlob :: "int \<Rightarrow> int \<Rightarrow> byte list \<Rightarrow> blob"

text \<open>
  \<^verbatim>\<open>Math.max(1, Math.ceil(extent / blockSize))\<close>: the quotient by zero is NaN for a
  zero extent and \<^verbatim>\<open>Infinity\<close> otherwise, and so is the result.
\<close>

definition max1_ceil_div :: "nat \<Rightarrow> int \<Rightarrow> int jsnum" where
  "max1_ceil_div extent bs =
     (if bs = 0 then (if extent = 0 then NaN else PInf)
      else Num (max 1 \<lceil>real extent / real_of_int bs\<rceil>))"

definition computeTilesDimension :: "nat \<Rightarrow> nat \<Rightarrow> int \<Rightarrow> int jsnum \<times> int jsnum" where
  "computeTilesDimension width height bs =
     (max1_ceil_div width bs, max1_ceil_div height bs)"

text \<open>
  The rendering both handlers do: the tile grid, the canvas, the downscale and the
  optional colour mapping, read from the session state. \<open>None\<close> when the handler stops
  there: \<^verbatim>\<open>new OffscreenCanvas\<close> throws for a size that is NaN or infinite, the context
  is missing, or the perceptual mapper throws.
\<close>

definition render :: "env \<Rightarrow> wstate \<Rightarrow> bitmap \<Rightarrow> int \<Rightarrow> (int \<times> int \<times> byte list) option" where
  "render e s source bs =
     (case computeTilesDimension (bm_width source) (bm_height source) bs of
        (Num tx, Num ty) \<Rightarrow>
          if \<not> env_getContext e tx ty then None
          else
            (let canvas = env_drawImage e source tx ty
             in case lastPalette s of
                  None \<Rightarrow> Some (tx, ty, canvas)
                | Some palette \<Rightarrow>
                    if lastColorizeEnabled s \<and> length palette \<ge> RGBA_STRIDE
                    then
                      (if lastAdvancedColorize s
                       then
                         (case mapImageDataToPalette
                                 \<lparr>img_data = canvas, img_width = nat tx, img_height = nat ty\<rparr>
                                 palette of
                            None \<Rightarrow> None
                          | Some d' \<Rightarrow> Some (tx, ty, d'))
                       else Some (tx, ty, mapImageDataToPaletteClassic canvas palette))
                    else Some (tx, ty, canvas))
      | _ \<Rightarrow> None)"

text \<open>
  \<^verbatim>\<open>handleProcessMessage\<close> in three parts: the assignments at its start, the compute up to
  the staleness check, and the check with the emission.
\<close>

definition process_begin :: "procmsg \<Rightarrow> wstate \<Rightarrow> wstate" where
  "process_begin msg s =
     s\<lparr>activeJobId := Some (pm_jobId msg),
       lastSourceBitmap := (case pm_bitmap msg of Some b \<Rightarrow> Some b | None \<Rightarrow> lastSourceBitmap s),
       lastBlockSize := Some (pm_blockSize msg),
       lastColorizeEnabled := (case pm_colorizeEnabled msg of Some c \<Rightarrow> c | None \<Rightarrow> True),
       lastAdvancedColorize := (case pm_advancedColorize msg of Some c \<Rightarrow> c | None \<Rightarrow> True),
       lastPalette :=
         (case pm_palette msg of
            Some p \<Rightarrow> if length p \<ge> RGBA_STRIDE then Some (map toUint8Clamp p) else None
          | None \<Rightarrow> None)\<rparr>"

definition process_compute :: "env \<Rightarrow> procmsg \<Rightarrow> wstate \<Rightarrow> (int \<times> int \<times> byte list) option" where
  "process_compute e msg s =
     (case lastSourceBitmap s of
        None \<Rightarrow> None
      | Some source \<Rightarrow> render e s source (pm_blockSize msg))"

definition process_finish ::
  "procmsg \<Rightarrow> int \<times> int \<times> byte list \<Rightarrow> wstate \<Rightarrow> wstate \<times> outgoing list" where
  "process_finish msg out s =
     (case out of (tx, ty, pixels) \<Rightarrow>
        if activeJobId s \<noteq> Some (pm_jobId msg) then (s, [])
        else
          (let resultBitmap = \<lparr>bm_width = nat tx, bm_height = nat ty, bm_pixels = pixels\<rparr>;
               m = \<lparr>outWidth = tx, outHeight = ty, tilesX = tx, tilesY = ty,
                    totalPixels = tx * ty, blockSize = pm_blockSize msg\<rparr>
           in (s\<lparr>lastRenderedJobId := Some (pm_jobId msg)\<rparr>,
               [ResultMsg (pm_jobId msg) resultBitmap m])))"

definition handleProcessMessage :: "env \<Rightarrow> procmsg \<Rightarrow> wstate \<Rightarrow> wstate \<times> outgoing list" where
  "handleProcessMessage e msg s =
     (let s1 = process_begin msg s
      in case process_compute e msg s1 of
           None \<Rightarrow> (s1, [])
         | Some out \<Rightarrow> process_finish msg out s1)"

definition handleGenerateBlobMessage :: "env \<Rightarrow> int \<Rightarrow> wstate \<Rightarrow> wstate \<times> outgoing list" where
  "handleGenerateBlobMessage e jobId s =
     (if lastRenderedJobId s \<noteq> Some jobId then (s, [])
      else
        (case (lastSourceBitmap s, lastBlockSize s) of
           (Some src, Some bs) \<Rightarrow>
             (case render e s src bs of
                None \<Rightarrow> (s, [])
              | Some (tx, ty, pixels) \<Rightarrow> (s, [BlobMsg jobId (env_convertToBlob e tx ty pixels)]))
         | _ \<Rightarrow> (s, [])))"

fun onmessage :: "env \<Rightarrow> incoming \<Rightarrow> wstate \<Rightarrow> wstate \<times> outgoing list" where
  "onmessage e (Cancel jobId) s =
     (if activeJobId s = Some jobId then (s\<lparr>activeJobId := None\<rparr>, []) else (s, []))"
| "onmessage e (Process msg) s = handleProcessMessage e msg s"
| "onmessage e (GenerateBlob jobId) s = handleGenerateBlobMessage e jobId s"

text \<open>The worker handles its messages one at a time, in the order of their arrival.\<close>

fun run :: "env \<Rightarrow> incoming list \<Rightarrow> wstate \<Rightarrow> wstate \<times> outgoing list" where
  "run e [] s = (s, [])"
| "run e (m # ms) s =
     (case onmessage e m s of (s1, out1) \<Rightarrow>
        (case run e ms s1 of (s2, out2) \<Rightarrow> (s2, out1 @ out2)))"

subsection \<open>The palette parser of the page\<close>

text \<open>
  A string is a list of code units below 256. \<^verbatim>\<open>toLowerCase\<close> maps the capital letters
  of Latin-1 to their small letters; white space is what \<^verbatim>\<open>trim\<close> and \<^verbatim>\<open>parseInt\<close>
  strip (TAB, LF, VT, FF, CR, SP, NBSP).
\<close>

definition lower_char :: "char \<Rightarrow> char" where
  "lower_char c =
     (let n = (of_char c :: nat)
      in if (65 \<le> n \<and> n \<le> 90) \<or> (192 \<le> n \<and> n \<le> 222 \<and> n \<noteq> 215)
         then char_of (n + 32) else c)"

definition toLowerCase :: "string \<Rightarrow> string" where
  "toLowerCase s = map lower_char s"

definition isWhiteSpace :: "char \<Rightarrow> bool" where
  "isWhiteSpace c = ((of_char c :: nat) \<in> {9, 10, 11, 12, 13, 32, 160})"

definition trim :: "string \<Rightarrow> string" where
  "trim s = rev (dropWhile isWhiteSpace (rev (dropWhile isWhiteSpace s)))"

definition isHexDigit :: "char \<Rightarrow> bool" where
  "isHexDigit c =
     (let n = (of_char c :: nat)
      in (48 \<le> n \<and> n \<le> 57) \<or> (97 \<le> n \<and> n \<le> 102) \<or> (65 \<le> n \<and> n \<le> 70))"

definition hexDigitValue :: "char \<Rightarrow> int" where
  "hexDigitValue c =
     (let n = (of_char c :: nat)
      in if 48 \<le> n \<and> n \<le> 57 then int n - 48
         else if 97 \<le> n \<and> n \<le> 102 then int n - 87
         else int n - 55)"

text \<open>
  \<^verbatim>\<open>Number.parseInt(s, 16)\<close>: leading white space, an optional sign, an optional
  \<^verbatim>\<open>0x\<close>, then the longest run of hexadecimal digits; NaN when that run is empty.
\<close>

definition parseInt16 :: "string \<Rightarrow> int jsnum" where
  "parseInt16 s =
     (let s1 = dropWhile isWhiteSpace s;
          sign = (if s1 \<noteq> [] \<and> hd s1 = CHR ''-'' then - 1 else 1 :: int);
          s2 = (if s1 \<noteq> [] \<and> (hd s1 = CHR ''-'' \<or> hd s1 = CHR ''+'') then tl s1 else s1);
          s3 = (if length s2 \<ge> 2 \<and> s2 ! 0 = CHR ''0'' \<and> (s2 ! 1 = CHR ''x'' \<or> s2 ! 1 = CHR ''X'')
                then drop 2 s2 else s2);
          z = takeWhile isHexDigit s3
      in if z = [] then NaN
         else Num (sign * fold (\<lambda>c acc. acc * 16 + hexDigitValue c) z 0))"

definition FULLY_OPAQUE_ALPHA :: int where "FULLY_OPAQUE_ALPHA = 255"
definition HEX_TRIPLET_LEN :: nat where "HEX_TRIPLET_LEN = 3"
definition HEX_SIX_LEN :: nat where "HEX_SIX_LEN = 6"

definition TRANSPARENT_RGBA :: "int jsnum \<times> int jsnum \<times> int jsnum \<times> int jsnum" where
  "TRANSPARENT_RGBA = (Num 0, Num 0, Num 0, Num 0)"

text \<open>\<^verbatim>\<open>h.slice(i, j)\<close> for \<open>0 \<le> i \<le> j\<close>.\<close>

definition slice :: "string \<Rightarrow> nat \<Rightarrow> nat \<Rightarrow> string" where
  "slice h i j = take (j - i) (drop i h)"

definition hexToRgbaComponents ::
  "string \<Rightarrow> (int jsnum \<times> int jsnum \<times> int jsnum \<times> int jsnum) option" where
  "hexToRgbaComponents hex =
     (let lower = toLowerCase hex
      in if lower = ''transparent'' then Some TRANSPARENT_RGBA
         else
           (let h0 = trim hex;
                h = (if h0 \<noteq> [] \<and> hd h0 = CHR ''#'' then drop 1 h0 else h0)
            in if length h = HEX_TRIPLET_LEN
               then
                 (let r = parseInt16 [h ! 0, h ! 0];
                      g = parseInt16 [h ! 1, h ! 1];
                      b = parseInt16 [h ! 2, h ! 2]
                  in Some (r, g, b, Num FULLY_OPAQUE_ALPHA))
               else if length h = HEX_SIX_LEN
               then
                 (let r = parseInt16 (slice h 0 2);
                      g = parseInt16 (slice h 2 4);
                      b = parseInt16 (slice h 4 HEX_SIX_LEN)
                  in Some (r, g, b, Num FULLY_OPAQUE_ALPHA))
               else None))"

record paletteEntry =
  pe_key :: string
  pe_hex :: string
  pe_isPremium :: bool

text \<open>The flat palette the page sends to the worker.\<close>

definition selectedPaletteArray :: "paletteEntry list \<Rightarrow> string list \<Rightarrow> int jsnum list" where
  "selectedPaletteArray paletteEntries selectedKeys =
     (let out =
        concat (map (\<lambda>e.
          if pe_key e \<notin> set selectedKeys then []
          else (case hexToRgbaComponents (pe_hex e) of
                  Some (r, g, b, a) \<Rightarrow> [r, g, b, a]
                | None \<Rightarrow> [])) paletteEntries)
      in if length out mod RGBA_STRIDE \<noteq> 0
         then take (length out - length out mod RGBA_STRIDE) out
         else out)"

section \<open>Auxiliary definitions\<close>

subsection \<open>Quantities named by the statements\<close>

text \<open>
  The squared Euclidean distance over (R, G, B) between palette entry \<open>j\<close> and a pixel,
  as the specification of the classic mapper words it; alpha takes no part.
\<close>

definition rgb_dist2 :: "byte list \<Rightarrow> nat \<Rightarrow> int \<Rightarrow> int \<Rightarrow> int \<Rightarrow> int" where
  "rgb_dist2 palette j r g b =
     (uint (palette ! (4 * j)) - r)\<^sup>2 + (uint (palette ! (4 * j + 1)) - g)\<^sup>2
       + (uint (palette ! (4 * j + 2)) - b)\<^sup>2"

text \<open>
  The adjusted cost of a candidate as the specification of the perceptual mapper words
  it, with the constants written out.
\<close>

definition claimed_cost :: "real \<Rightarrow> real \<Rightarrow> real \<Rightarrow> real \<Rightarrow> PaletteLab \<Rightarrow> real" where
  "claimed_cost Lr ar br hueWeight cand =
     deltaE00 Lr ar br (pl_L cand) (pl_a cand) (pl_b cand)
     + 0.7 * max 0 (\<bar>Lr - pl_L cand\<bar> - 3.0)
     + 0.7 * max 0 (\<bar>hypot ar br - pl_C cand\<bar> - 3.0)
     + (if hypot ar br \<ge> 3.0
        then 0.3 * hueWeight * (1 - cos (deltaHue ar br (pl_a cand) (pl_b cand))) else 0)
     + (if hypot ar br < 6.0 then 0.15 * pl_C cand else 0)"

text \<open>Results for a job id among the emitted messages, and submissions of a job id.\<close>

definition is_result_for :: "int \<Rightarrow> outgoing \<Rightarrow> bool" where
  "is_result_for j out = (case out of ResultMsg i bmp mt \<Rightarrow> i = j | BlobMsg i b \<Rightarrow> False)"

definition is_process_for :: "int \<Rightarrow> incoming \<Rightarrow> bool" where
  "is_process_for j m = (case m of Process msg \<Rightarrow> pm_jobId msg = j | Cancel i \<Rightarrow> False | GenerateBlob i \<Rightarrow> False)"

subsection \<open>Parts of deltaE00 and of the shortlist invariant\<close>

text \<open>
  The hue-prime angle, the wrapped hue difference, the average hue and the last block of
  \<open>deltaE00\<close>, named so that the symmetry proof can treat them one at a time.
\<close>

definition de_hp :: "real \<Rightarrow> real \<Rightarrow> real \<Rightarrow> real" where
  "de_hp G a b = (if atan2 b ((1 + G) * a) < 0 then atan2 b ((1 + G) * a) + 2 * pi else atan2 b ((1 + G) * a))"

definition de_dhp :: "real \<Rightarrow> real \<Rightarrow> real" where
  "de_dhp h1p h2p = (if \<bar>h2p - h1p\<bar> > pi then (h2p - h1p) - sgn (h2p - h1p) * 2 * pi else h2p - h1p)"

definition de_avgHp :: "real \<Rightarrow> real \<Rightarrow> real" where
  "de_avgHp h1p h2p = (if \<bar>h1p - h2p\<bar> > pi then h1p + h2p + 2 * pi else h1p + h2p) / 2"

definition de_G :: "real \<Rightarrow> real" where
  "de_G avgC = 0.5 * (1 - sqrt (avgC ^ 7 / (avgC ^ 7 + 25 ^ 7)))"

definition de_core :: "real \<Rightarrow> real \<Rightarrow> real \<Rightarrow> real \<Rightarrow> real \<Rightarrow> real \<Rightarrow> real" where
  "de_core avgLp avgCp avgHp dLp dCp dHp =
     (let T = 1 - 0.17 * cos (avgHp - pi / 6) + 0.24 * cos (2 * avgHp)
                + 0.32 * cos (3 * avgHp + pi / 30) - 0.2 * cos (4 * avgHp - (63 * pi) / 180);
          Sl = 1 + (0.015 * (avgLp - 50) ^ 2) / sqrt (20 + (avgLp - 50) ^ 2);
          Sc = 1 + 0.045 * avgCp;
          Sh = 1 + 0.015 * avgCp * T;
          dTheta = (30 * pi) / 180 * exp (- (((180 / pi * avgHp - 275) / 25) ^ 2));
          Rc = 2 * sqrt (avgCp ^ 7 / (avgCp ^ 7 + 25 ^ 7));
          Rt = - Rc * sin (2 * dTheta);
          termL = dLp / Sl;
          termC = dCp / Sc;
          termH = dHp / Sh
      in sqrt (termL * termL + termC * termC + termH * termH + Rt * termC * termH))"

text \<open>
  A slot of the shortlist after \<open>m\<close> palette entries: still empty, or holding the
  wrapped index of an entry \<open>p < m\<close> together with the raw distance of that entry.
\<close>

definition slot_ok :: "real \<Rightarrow> real \<Rightarrow> real \<Rightarrow> PaletteLab list \<Rightarrow> nat \<Rightarrow> int list \<times> real jsnum list \<Rightarrow> nat \<Rightarrow> bool" where
  "slot_ok Lr ar br pal m st k =
     ((fst st ! k = - 1 \<and> snd st ! k = PInf) \<or>
      (\<exists>p<m. fst st ! k = int16 (int p) \<and>
         snd st ! k = Num (deltaE00 Lr ar br (pl_L (pal ! p)) (pl_a (pal ! p)) (pl_b (pal ! p)))))"

definition slot_full :: "real \<Rightarrow> real \<Rightarrow> real \<Rightarrow> PaletteLab list \<Rightarrow> nat \<Rightarrow> int list \<times> real jsnum list \<Rightarrow> nat \<Rightarrow> bool" where
  "slot_full Lr ar br pal m st k =
      (\<exists>p<m. fst st ! k = int16 (int p) \<and>
         snd st ! k = Num (deltaE00 Lr ar br (pl_L (pal ! p)) (pl_a (pal ! p)) (pl_b (pal ! p))))"

subsection \<open>Example inputs\<close>

text \<open>
  A platform without a 2d context, and one whose downscale fills the canvas with the
  first pixel of the source; a 32x32 source; a job that carries no palette.
\<close>

definition no_context_env :: env where
  "no_context_env =
     \<lparr>env_getContext = (\<lambda>tx ty. False),
      env_drawImage = (\<lambda>src tx ty. replicate (4 * nat tx * nat ty) 0),
      env_convertToBlob = (\<lambda>tx ty pixels. pixels)\<rparr>"

definition solid_env :: env where
  "solid_env =
     \<lparr>env_getContext = (\<lambda>tx ty. True),
      env_drawImage = (\<lambda>src tx ty. concat (replicate (nat tx * nat ty) (take 4 (bm_pixels src)))),
      env_convertToBlob = (\<lambda>tx ty pixels. pixels)\<rparr>"

definition red32 :: bitmap where
  "red32 = \<lparr>bm_width = 32, bm_height = 32, bm_pixels = [255, 0, 0, 255]\<rparr>"

definition job :: "int \<Rightarrow> int \<Rightarrow> bitmap option \<Rightarrow> procmsg" where
  "job j bs src =
     \<lparr>pm_jobId = j, pm_blockSize = bs, pm_bitmap = src, pm_colorizeEnabled = Some False,
      pm_advancedColorize = None, pm_palette = None\<rparr>"

text \<open>One-pixel images, and a red pixel beside a transparent or an opaque red one.\<close>

definition one_transparent :: ImageData where
  "one_transparent = \<lparr>img_data = [7, 8, 9, 0], img_width = 1, img_height = 1\<rparr>"

definition one_red :: ImageData where
  "one_red = \<lparr>img_data = [255, 0, 0, 255], img_width = 1, img_height = 1\<rparr>"






text \<open>
  A palette of 65537 entries, black 65536 times and then red, with its Lab attributes; the
  Lab triple of the one pixel of \<open>one_red\<close>, its hue weight and its raw distance to black.
\<close>

definition big_palette :: "byte list" where
  "big_palette = concat (replicate 65536 [0, 0, 0, 255]) @ [255, 0, 0, 255]"

definition big_pal :: "PaletteLab list" where
  "big_pal = map (\<lambda>k. toPaletteLab big_palette (k * RGBA_STRIDE)) [0..<length big_palette div RGBA_STRIDE]"

definition red_L :: real where "red_L = fst (labAt (img_data one_red) 0)"

definition red_a :: real where "red_a = fst (snd (labAt (img_data one_red) 0))"

definition red_b :: real where "red_b = snd (snd (labAt (img_data one_red) 0))"

definition red_hW :: real where
  "red_hW = hueWeightAt 1 1 (Aarr_of (img_data one_red) 1) (Barr_of (img_data one_red) 1) 0 0"

definition red_black :: real where
  "red_black = deltaE00 red_L red_a red_b 0 0 0"

text \<open>The insertion step of the shortlist pass, for a given raw distance.\<close>

definition shortlist_insert ::
  "real \<Rightarrow> nat \<Rightarrow> int list \<times> real jsnum list \<Rightarrow> int list \<times> real jsnum list" where
  "shortlist_insert base pidx topK =
     (let worst = find_worst (snd topK)
      in if num_lt (Num base) (snd worst)
         then ((fst topK)[fst worst := int16 (int pidx)], (snd topK)[fst worst := Num base])
         else topK)"

section \<open>Pixel-wise loops\<close>

text \<open>
  Both mappers run a loop over the pixels whose body writes the four bytes of its own
  pixel only and reads nothing else of the buffer. Such a loop maps each pixel on its own.
\<close>

lemma fold_pixelwise_aux:
  fixes step :: "nat \<Rightarrow> 'a list \<Rightarrow> 'a list"
  assumes len: "\<And>k d. length (step k d) = length d"
    and other: "\<And>k d j. j div 4 \<noteq> k \<Longrightarrow> step k d ! j = d ! j"
    and loc: "\<And>k d d' c. length d = length d' \<Longrightarrow> (\<forall>c<4. d ! (4 * k + c) = d' ! (4 * k + c))
                \<Longrightarrow> c < 4 \<Longrightarrow> step k d ! (4 * k + c) = step k d' ! (4 * k + c)"
  shows "length (fold step [0..<n] d) = length d \<and>
         (\<forall>j. fold step [0..<n] d ! j = (if j div 4 < n then step (j div 4) d ! j else d ! j))"
proof (induction n)
  case 0
  show ?case by simp
next
  case (Suc n)
  let ?d = "fold step [0..<n] d"
  have f: "fold step [0..<Suc n] d = step n ?d" by simp
  have l: "length ?d = length d" using Suc.IH by simp
  have ih: "\<And>j. ?d ! j = (if j div 4 < n then step (j div 4) d ! j else d ! j)"
    using Suc.IH by simp
  have "step n ?d ! j = (if j div 4 < Suc n then step (j div 4) d ! j else d ! j)" for j
  proof (cases "j div 4 = n")
    case True
    define c where "c = j mod 4"
    have j: "j = 4 * n + c" and c: "c < 4"
      using True by (auto simp: c_def)
    have "\<forall>c<4. ?d ! (4 * n + c) = d ! (4 * n + c)"
      using ih by simp
    then have "step n ?d ! (4 * n + c) = step n d ! (4 * n + c)"
      using loc[of ?d d n c] l c by simp
    then show ?thesis using True j by simp
  next
    case False
    have "step n ?d ! j = ?d ! j" using other[of j n ?d] False by simp
    then show ?thesis using ih[of j] False by auto
  qed
  then show ?case using f l len by simp
qed

lemma nested_fold_flat:
  "fold (\<lambda>y. fold (\<lambda>x. f x y) [0..<w]) [0..<h] d = fold (\<lambda>i. f (i mod w) (i div w)) [0..<w * h] d"
proof (induction h)
  case 0
  show ?case by simp
next
  case (Suc h)
  have split: "[0..<w * Suc h] = [0..<w * h] @ map (\<lambda>x. w * h + x) [0..<w]"
  proof -
    have "[0..<w * h + w] = [0..<w * h] @ [w * h..<w * h + w]"
      by (rule upt_add_eq_append) simp
    moreover have "[w * h..<w * h + w] = map (\<lambda>x. w * h + x) [0..<w]"
      using map_add_upt[of "w * h" w] by (simp only: add.commute)
    ultimately show ?thesis by (simp only: mult_Suc_right add.commute)
  qed
  have row: "fold (\<lambda>i. f (i mod w) (i div w)) (map (\<lambda>x. w * h + x) [0..<w]) e = fold (\<lambda>x. f x h) [0..<w] e" for e
    unfolding fold_map by (rule fold_cong) (auto simp: comp_def)
  let ?g = "\<lambda>i. f (i mod w) (i div w)"
  have "fold (\<lambda>y. fold (\<lambda>x. f x y) [0..<w]) [0..<Suc h] d
      = fold (\<lambda>x. f x h) [0..<w] (fold (\<lambda>y. fold (\<lambda>x. f x y) [0..<w]) [0..<h] d)"
    by simp
  also have "\<dots> = fold (\<lambda>x. f x h) [0..<w] (fold ?g [0..<w * h] d)"
    by (simp only: Suc.IH)
  also have "\<dots> = fold ?g (map (\<lambda>x. w * h + x) [0..<w]) (fold ?g [0..<w * h] d)"
    by (simp only: row)
  also have "\<dots> = fold ?g ([0..<w * h] @ map (\<lambda>x. w * h + x) [0..<w]) d"
    by (simp only: fold_append comp_def)
  also have "\<dots> = fold ?g [0..<w * Suc h] d"
    by (simp only: split)
  finally show ?case .
qed

lemma upd1_nth: "xs[i := v] ! j = (if j = i \<and> j < length xs then v else xs ! j)"
  by (cases "i < length xs") (auto simp: nth_list_update list_update_beyond)

lemma upd4_nth:
  "d[i := v0, i + 1 := v1, i + 2 := v2, i + 3 := v3] ! j =
     (if j < length d \<and> i \<le> j \<and> j < i + 4 then [v0, v1, v2, v3] ! (j - i) else d ! j)"
proof -
  consider "j = i" | "j = i + 1" | "j = i + 2" | "j = i + 3" | "j < i \<or> i + 4 \<le> j"
    by linarith
  then show ?thesis
    by cases (simp_all add: upd1_nth)
qed

section \<open>The classic mapper\<close>

lemma classic_scan_step_full:
  assumes "4 * j + 3 < length palette"
  shows "classic_scan_step palette r g b (j * RGBA_STRIDE) best =
           (if num_lt (Num (rgb_dist2 palette j r g b)) (snd best)
            then (4 * j, Num (rgb_dist2 palette j r g b)) else best)"
  using assms
  by (simp add: classic_scan_step_def rd_def channel_defs rgb_dist2_def power2_eq_square Let_def mult.commute)

lemma classic_scan_inv:
  assumes "4 * m \<le> length palette"
  shows "(let st = fold (classic_scan_step palette r g b) (map (\<lambda>j. j * RGBA_STRIDE) [0..<m]) (0, PInf)
          in (m = 0 \<and> st = (0, PInf)) \<or>
             (\<exists>j<m. st = (4 * j, Num (rgb_dist2 palette j r g b)) \<and>
                (\<forall>j'<m. rgb_dist2 palette j r g b \<le> rgb_dist2 palette j' r g b) \<and>
                (\<forall>j'<j. rgb_dist2 palette j r g b < rgb_dist2 palette j' r g b)))"
  using assms
proof (induction m)
  case 0
  show ?case by simp
next
  case (Suc m)
  let ?f = "classic_scan_step palette r g b"
  let ?st = "fold ?f (map (\<lambda>j. j * RGBA_STRIDE) [0..<m]) (0, PInf)"
  let ?D = "\<lambda>j. rgb_dist2 palette j r g b"
  have in_range: "4 * m + 3 < length palette" using Suc.prems by simp
  have step: "fold ?f (map (\<lambda>j. j * RGBA_STRIDE) [0..<Suc m]) (0, PInf) =
      (if num_lt (Num (?D m)) (snd ?st) then (4 * m, Num (?D m)) else ?st)"
    using classic_scan_step_full[OF in_range] by simp
  from Suc have ih: "(m = 0 \<and> ?st = (0, PInf)) \<or>
             (\<exists>j<m. ?st = (4 * j, Num (?D j)) \<and> (\<forall>j'<m. ?D j \<le> ?D j') \<and> (\<forall>j'<j. ?D j < ?D j'))"
    by (simp add: Let_def)
  then show ?case
  proof
    assume "m = 0 \<and> ?st = (0, PInf)"
    then show ?thesis unfolding Let_def step by (intro disjI2 exI[of _ 0]) simp
  next
    assume "\<exists>j<m. ?st = (4 * j, Num (?D j)) \<and> (\<forall>j'<m. ?D j \<le> ?D j') \<and> (\<forall>j'<j. ?D j < ?D j')"
    then obtain j where j: "j < m" "?st = (4 * j, Num (?D j))" "\<forall>j'<m. ?D j \<le> ?D j'" "\<forall>j'<j. ?D j < ?D j'"
      by blast
    show ?thesis
    proof (cases "?D m < ?D j")
      case True
      have "\<forall>j'<Suc m. ?D m \<le> ?D j'" using True j(3) by (auto simp: less_Suc_eq)
      moreover have "\<forall>j'<m. ?D m < ?D j'" using True j(3) by force
      ultimately show ?thesis unfolding Let_def step using True j(2)
        by (intro disjI2 exI[of _ m]) simp
    next
      case False
      have "\<forall>j'<Suc m. ?D j \<le> ?D j'" using False j(3) by (auto simp: less_Suc_eq)
      then show ?thesis unfolding Let_def step using False j
        by (intro disjI2 exI[of _ j]) simp
    qed
  qed
qed

lemma classic_best_char:
  assumes "length palette mod 4 = 0" "4 \<le> length palette"
  shows "\<exists>j<length palette div 4. classic_best palette r g b = 4 * j \<and>
            (\<forall>j'<length palette div 4. rgb_dist2 palette j r g b \<le> rgb_dist2 palette j' r g b) \<and>
            (\<forall>j'<j. rgb_dist2 palette j r g b < rgb_dist2 palette j' r g b)"
proof -
  let ?n = "length palette div 4"
  have n: "4 * ?n = length palette" "?n \<noteq> 0" using assms by auto
  have "(length palette + 3) div 4 = ?n" using assms(1) by presburger
  then have off: "palette_offsets (length palette) = map (\<lambda>j. j * RGBA_STRIDE) [0..<?n]"
    by (simp add: palette_offsets_def channel_defs)
  have "4 * ?n \<le> length palette" using n by simp
  from classic_scan_inv[OF this, of r g b] n(2) show ?thesis
    unfolding classic_best_def off Let_def by auto
qed

lemma classic_pixel_nth:
  "classic_pixel palette (k * RGBA_STRIDE) d ! j =
     (if d ! (4 * k + 3) \<noteq> 0 \<and> j < length d \<and> 4 * k \<le> j \<and> j < 4 * k + 4
      then (let bestIndex = classic_best palette (uint (d ! (4 * k))) (uint (d ! (4 * k + 1))) (uint (d ! (4 * k + 2)))
            in stored (rd palette (bestIndex + (j - 4 * k))))
      else d ! j)"
proof -
  consider "j = 4 * k" | "j = 4 * k + 1" | "j = 4 * k + 2" | "j = 4 * k + 3" | "j < 4 * k \<or> 4 * k + 4 \<le> j"
    by linarith
  then show ?thesis
    unfolding classic_pixel_def channel_defs Let_def
    by cases (simp_all only: upd4_nth mult.commute[of k 4] add_0_right split: if_splits, auto)
qed

lemma classic_pixel_length: "length (classic_pixel palette i d) = length d"
  by (simp add: classic_pixel_def Let_def)

lemma classic_pixel_other:
  "j div 4 \<noteq> k \<Longrightarrow> classic_pixel palette (k * RGBA_STRIDE) d ! j = d ! j"
  unfolding classic_pixel_nth by auto

lemma classic_pixel_local:
  assumes "length d = length d'" "\<forall>c<4. d ! (4 * k + c) = d' ! (4 * k + c)" "c < 4"
  shows "classic_pixel palette (k * RGBA_STRIDE) d ! (4 * k + c) =
         classic_pixel palette (k * RGBA_STRIDE) d' ! (4 * k + c)"
proof -
  have e: "d ! (4 * k) = d' ! (4 * k)" "d ! (4 * k + 1) = d' ! (4 * k + 1)"
    "d ! (4 * k + 2) = d' ! (4 * k + 2)" "d ! (4 * k + 3) = d' ! (4 * k + 3)"
    using assms(2)[rule_format, of 0] assms(2)[rule_format, of 1]
      assms(2)[rule_format, of 2] assms(2)[rule_format, of 3] by simp_all
  show ?thesis
    unfolding classic_pixel_nth e using assms(1) assms(2)[rule_format, OF assms(3)] by simp
qed

lemma classic_map_nth:
  assumes "RGBA_STRIDE \<le> length palette"
  shows "mapImageDataToPaletteClassic d palette ! j =
          (if j div 4 < length d div 4 then classic_pixel palette (j div 4 * RGBA_STRIDE) d ! j else d ! j)"
    and "length (mapImageDataToPaletteClassic d palette) = length d"
proof -
  let ?step = "\<lambda>k. classic_pixel palette (k * RGBA_STRIDE)"
  have F: "length (fold ?step [0..<n] d) = length d \<and>
         (\<forall>j. fold ?step [0..<n] d ! j = (if j div 4 < n then ?step (j div 4) d ! j else d ! j))" for n
    by (rule fold_pixelwise_aux[where step = ?step, OF classic_pixel_length classic_pixel_other classic_pixel_local])
  have m: "mapImageDataToPaletteClassic d palette = fold ?step [0..<length d div 4] d"
    using assms by (simp add: mapImageDataToPaletteClassic_def RGBA_STRIDE_def)
  show "mapImageDataToPaletteClassic d palette ! j =
          (if j div 4 < length d div 4 then classic_pixel palette (j div 4 * RGBA_STRIDE) d ! j else d ! j)"
    unfolding m using F[of "length d div 4"] by blast
  show "length (mapImageDataToPaletteClassic d palette) = length d"
    unfolding m using F[of "length d div 4"] by blast
qed

lemma classic_transparent:
  assumes "d ! (4 * k + 3) = 0" "c < 4"
  shows "mapImageDataToPaletteClassic d palette ! (4 * k + c) = d ! (4 * k + c)"
proof (cases "RGBA_STRIDE \<le> length palette")
  case True
  have dv: "(4 * k + c) div 4 = k" using assms(2) by simp
  have "classic_pixel palette (k * RGBA_STRIDE) d ! (4 * k + c) = d ! (4 * k + c)"
    unfolding classic_pixel_nth using assms(1) by simp
  then show ?thesis using classic_map_nth(1)[OF True, of d "4 * k + c"] unfolding dv by simp
next
  case False
  then show ?thesis by (simp add: mapImageDataToPaletteClassic_def)
qed

lemmas classic_eval =
  mapImageDataToPaletteClassic_def classic_pixel_def classic_best_def palette_offsets_def
  classic_scan_step_def rd_def stored_def channel_defs Let_def

text \<open>
  Claim C3. For a palette of \<open>n \<ge> 1\<close> RGBA entries and a pixel buffer, every pixel \<open>k\<close>
  whose alpha is not 0 is replaced by the four bytes of a palette entry \<open>j\<close> whose squared
  distance over (R, G, B) is minimal among all entries, and strictly smaller than that of
  every entry of lower index: on a tie the lowest index wins.
\<close>

theorem classic_mapper_nearest_lowest_index:
  assumes pal: "length palette mod 4 = 0" "4 \<le> length palette"
    and img: "length d mod 4 = 0"
    and k: "k < length d div 4"
    and opaque: "d ! (4 * k + 3) \<noteq> 0"
  shows "\<exists>j<length palette div 4.
           (\<forall>c<4. mapImageDataToPaletteClassic d palette ! (4 * k + c) = palette ! (4 * j + c)) \<and>
           (\<forall>j'<length palette div 4.
              rgb_dist2 palette j (uint (d ! (4 * k))) (uint (d ! (4 * k + 1))) (uint (d ! (4 * k + 2)))
              \<le> rgb_dist2 palette j' (uint (d ! (4 * k))) (uint (d ! (4 * k + 1))) (uint (d ! (4 * k + 2)))) \<and>
           (\<forall>j'<j.
              rgb_dist2 palette j (uint (d ! (4 * k))) (uint (d ! (4 * k + 1))) (uint (d ! (4 * k + 2)))
              < rgb_dist2 palette j' (uint (d ! (4 * k))) (uint (d ! (4 * k + 1))) (uint (d ! (4 * k + 2))))"
proof -
  let ?r = "uint (d ! (4 * k))" and ?g = "uint (d ! (4 * k + 1))" and ?b = "uint (d ! (4 * k + 2))"
  from classic_best_char[OF pal, of ?r ?g ?b] obtain j where
    j: "j < length palette div 4" "classic_best palette ?r ?g ?b = 4 * j"
    and mn: "\<forall>j'<length palette div 4. rgb_dist2 palette j ?r ?g ?b \<le> rgb_dist2 palette j' ?r ?g ?b"
    and fst: "\<forall>j'<j. rgb_dist2 palette j ?r ?g ?b < rgb_dist2 palette j' ?r ?g ?b"
    by blast
  have jr: "4 * j + 3 < length palette" using j(1) pal by presburger
  have kr: "4 * k + 3 < length d" using k img by presburger
  have "mapImageDataToPaletteClassic d palette ! (4 * k + c) = palette ! (4 * j + c)" if c: "c < 4" for c
  proof -
    have dv: "(4 * k + c) div 4 = k" using c by simp
    have "mapImageDataToPaletteClassic d palette ! (4 * k + c)
        = classic_pixel palette (k * RGBA_STRIDE) d ! (4 * k + c)"
      using classic_map_nth(1)[of palette d "4 * k + c"] pal(2) k unfolding dv by (simp add: RGBA_STRIDE_def)
    also have "\<dots> = stored (rd palette (4 * j + c))"
      unfolding classic_pixel_nth Let_def j(2) using opaque kr c by simp
    also have "\<dots> = palette ! (4 * j + c)"
      using jr c by (simp add: rd_def stored_def)
    finally show ?thesis .
  qed
  then show ?thesis using j(1) mn fst by blast
qed

theorem classic_mapper_nearest_lowest_index_witness:
  "length [0, 0, 0, 255, 9, 19, 29, 7, 9, 19, 29, 8 :: byte] mod 4 = 0 \<and>
   4 \<le> length [0, 0, 0, 255, 9, 19, 29, 7, 9, 19, 29, 8 :: byte] \<and>
   length [10, 20, 30, 255 :: byte] mod 4 = 0 \<and>
   0 < length [10, 20, 30, 255 :: byte] div 4 \<and>
   [10, 20, 30, 255 :: byte] ! (4 * 0 + 3) \<noteq> 0 \<and>
   mapImageDataToPaletteClassic [10, 20, 30, 255] [0, 0, 0, 255, 9, 19, 29, 7, 9, 19, 29, 8]
     = [9, 19, 29, 7]"
proof -
  have ev: "mapImageDataToPaletteClassic [10, 20, 30, 255] [0, 0, 0, 255, 9, 19, 29, 7, 9, 19, 29, 8]
     = [9, 19, 29, 7]"
    by code_simp
  show ?thesis
    using classic_mapper_nearest_lowest_index[of "[0, 0, 0, 255, 9, 19, 29, 7, 9, 19, 29, 8]" "[10, 20, 30, 255]" 0]
    by (simp add: ev)
qed

section \<open>CIEDE2000\<close>

lemma deltaE00_parts:
  "deltaE00 L1 a1 b1 L2 a2 b2 =
     (let G = de_G ((hypot a1 b1 + hypot a2 b2) / 2);
          C1p = hypot ((1 + G) * a1) b1;
          C2p = hypot ((1 + G) * a2) b2;
          h1p = de_hp G a1 b1;
          h2p = de_hp G a2 b2
      in de_core ((L1 + L2) / 2) ((C1p + C2p) / 2) (de_avgHp h1p h2p) (L2 - L1) (C2p - C1p)
           (2 * sqrt (C1p * C2p) * sin (de_dhp h1p h2p / 2)))"
  unfolding deltaE00_def de_core_def de_G_def de_hp_def de_dhp_def de_avgHp_def Let_def
  by simp

lemma de_dhp_swap: "de_dhp h2 h1 = - de_dhp h1 h2"
proof -
  have "\<bar>h1 - h2\<bar> = \<bar>h2 - h1\<bar>" by simp
  moreover have "sgn (h1 - h2) = - sgn (h2 - h1)" by (simp add: sgn_if)
  ultimately show ?thesis by (simp add: de_dhp_def)
qed

lemma de_avgHp_swap: "de_avgHp h2 h1 = de_avgHp h1 h2"
proof -
  have "\<bar>h1 - h2\<bar> = \<bar>h2 - h1\<bar>" by simp
  then show ?thesis by (simp add: de_avgHp_def add.commute)
qed

lemma de_core_neg: "de_core l c h (- x) (- y) (- z) = de_core l c h x y z"
  by (simp add: de_core_def Let_def)

lemma deltaE00_self: "deltaE00 L1 a1 b1 L1 a1 b1 = 0"
  by (simp add: deltaE00_parts Let_def de_dhp_def de_core_def)

lemma deltaE00_swap: "deltaE00 L1 a1 b1 L2 a2 b2 = deltaE00 L2 a2 b2 L1 a1 b1"
proof -
  let ?G = "de_G ((hypot a1 b1 + hypot a2 b2) / 2)"
  let ?C1p = "hypot ((1 + ?G) * a1) b1" and ?C2p = "hypot ((1 + ?G) * a2) b2"
  let ?h1p = "de_hp ?G a1 b1" and ?h2p = "de_hp ?G a2 b2"
  have G: "de_G ((hypot a2 b2 + hypot a1 b1) / 2) = ?G" by (simp add: add.commute)
  have "deltaE00 L2 a2 b2 L1 a1 b1 =
      de_core ((L2 + L1) / 2) ((?C2p + ?C1p) / 2) (de_avgHp ?h2p ?h1p) (L1 - L2) (?C1p - ?C2p)
           (2 * sqrt (?C2p * ?C1p) * sin (de_dhp ?h2p ?h1p / 2))"
    unfolding deltaE00_parts[of L2 a2 b2 L1 a1 b1] G Let_def ..
  also have "\<dots> = de_core ((L1 + L2) / 2) ((?C1p + ?C2p) / 2) (de_avgHp ?h1p ?h2p) (- (L2 - L1)) (- (?C2p - ?C1p))
           (- (2 * sqrt (?C1p * ?C2p) * sin (de_dhp ?h1p ?h2p / 2)))"
  proof -
    have e: "(L2 + L1) / 2 = (L1 + L2) / 2" "(?C2p + ?C1p) / 2 = (?C1p + ?C2p) / 2"
      "L1 - L2 = - (L2 - L1)" "?C1p - ?C2p = - (?C2p - ?C1p)" "?C2p * ?C1p = ?C1p * ?C2p"
      by simp_all
    have f: "2 * sqrt (?C1p * ?C2p) * sin (de_dhp ?h2p ?h1p / 2)
        = - (2 * sqrt (?C1p * ?C2p) * sin (de_dhp ?h1p ?h2p / 2))"
      unfolding de_dhp_swap[of ?h1p ?h2p] by simp
    show ?thesis
      by (simp only: e f de_avgHp_swap[of ?h1p ?h2p])
  qed
  also have "\<dots> = deltaE00 L1 a1 b1 L2 a2 b2"
    unfolding de_core_neg deltaE00_parts[of L1 a1 b1 L2 a2 b2] Let_def ..
  finally show ?thesis by simp
qed

text \<open>
  Claim C7. The distance of a Lab colour to itself is 0, and \<open>deltaE00\<close> is symmetric
  under the swap of its two colours.
\<close>

theorem deltaE00_zero_and_symmetric:
  "deltaE00 L1 a1 b1 L1 a1 b1 = 0 \<and> deltaE00 L1 a1 b1 L2 a2 b2 = deltaE00 L2 a2 b2 L1 a1 b1"
proof
  show "deltaE00 L1 a1 b1 L1 a1 b1 = 0" by (rule deltaE00_self)
  show "deltaE00 L1 a1 b1 L2 a2 b2 = deltaE00 L2 a2 b2 L1 a1 b1" by (rule deltaE00_swap)
qed

subsection \<open>The hue terms in Cartesian form\<close>









subsection \<open>Enclosures of two distances\<close>














section \<open>The perceptual mapper\<close>

lemma perceptual_pixel_nth:
  "perceptual_pixel w h La Aa Ba pal x y d ! j =
     (if d ! (4 * (y * w + x) + 3) \<noteq> 0 \<and> j < length d \<and> 4 * (y * w + x) \<le> j \<and> j < 4 * (y * w + x) + 4
      then [pl_r (perceptual_best w h La Aa Ba pal x y), pl_g (perceptual_best w h La Aa Ba pal x y),
            pl_b8 (perceptual_best w h La Aa Ba pal x y), pl_a8 (perceptual_best w h La Aa Ba pal x y)]
             ! (j - 4 * (y * w + x))
      else d ! j)"
  unfolding perceptual_pixel_def channel_defs Let_def
  by (simp only: upd4_nth mult.commute[of _ 4] add_0_right split: if_splits) auto

lemma perceptual_pixel_length: "length (perceptual_pixel w h La Aa Ba pal x y d) = length d"
  by (simp add: perceptual_pixel_def Let_def)

lemma div_mod_index: "0 < w \<Longrightarrow> (k div w) * w + k mod w = (k::nat)"
  by simp

lemma perceptual_map_nth:
  assumes "4 \<le> length palette" "length palette mod 4 = 0"
  shows "\<exists>d'. mapImageDataToPalette img palette = Some d' \<and> length d' = length (img_data img) \<and>
     (\<forall>j. d' ! j =
        (if j div 4 < img_width img * img_height img
         then perceptual_pixel (img_width img) (img_height img)
                (Larr_of (img_data img) (img_width img * img_height img))
                (Aarr_of (img_data img) (img_width img * img_height img))
                (Barr_of (img_data img) (img_width img * img_height img))
                (map (\<lambda>k. toPaletteLab palette (k * RGBA_STRIDE)) [0..<length palette div RGBA_STRIDE])
                ((j div 4) mod img_width img) ((j div 4) div img_width img) (img_data img) ! j
         else img_data img ! j))"
proof -
  let ?w = "img_width img" and ?h = "img_height img" and ?d = "img_data img"
  let ?pal = "map (\<lambda>k. toPaletteLab palette (k * RGBA_STRIDE)) [0..<length palette div RGBA_STRIDE]"
  let ?f = "perceptual_pixel ?w ?h (Larr_of ?d (?w * ?h)) (Aarr_of ?d (?w * ?h)) (Barr_of ?d (?w * ?h)) ?pal"
  let ?step = "\<lambda>k. ?f (k mod ?w) (k div ?w)"
  have m: "mapImageDataToPalette img palette = Some (fold ?step [0..<?w * ?h] ?d)"
    using assms by (simp add: mapImageDataToPalette_def Let_def RGBA_STRIDE_def nested_fold_flat)
  have idx: "k div ?w * ?w + k mod ?w = k" for k by simp
  have other: "?step k d ! j = d ! j" if "j div 4 \<noteq> k" for k d j
    unfolding perceptual_pixel_nth idx using that by auto
  have loc: "?step k d ! (4 * k + c) = ?step k d' ! (4 * k + c)"
    if "length d = length d'" "\<forall>c<4. d ! (4 * k + c) = d' ! (4 * k + c)" "c < 4" for k d d' c
  proof -
    have "d ! (4 * k + 3) = d' ! (4 * k + 3)" using that(2) by simp
    then show ?thesis unfolding perceptual_pixel_nth idx using that(1) that(2)[rule_format, OF that(3)]
      by simp
  qed
  have F: "length (fold ?step [0..<n] ?d) = length ?d \<and>
         (\<forall>j. fold ?step [0..<n] ?d ! j = (if j div 4 < n then ?step (j div 4) ?d ! j else ?d ! j))" for n
    by (rule fold_pixelwise_aux[where step = ?step, OF perceptual_pixel_length other loc])
  show ?thesis unfolding m using F[of "?w * ?h"] by blast
qed

lemma pixel_index:
  assumes "x < (w::nat)" "y < (h::nat)"
  shows "y * w + x < w * h" "(y * w + x) mod w = x" "(y * w + x) div w = y"
proof -
  have "y * w + x < y * w + w" using assms(1) by simp
  also have "\<dots> = w * Suc y" by simp
  also have "\<dots> \<le> w * h" using assms(2) by (intro mult_le_mono2) simp
  finally show "y * w + x < w * h" .
  show "(y * w + x) mod w = x" "(y * w + x) div w = y" using assms(1) by simp_all
qed

lemma lab_arrays_nth:
  assumes "idx < n"
  shows "Larr_of d n ! idx = fst (labAt d idx)" "Aarr_of d n ! idx = fst (snd (labAt d idx))"
    "Barr_of d n ! idx = snd (snd (labAt d idx))"
  using assms by (simp_all add: Larr_of_def Aarr_of_def Barr_of_def)


lemma toPaletteLab_rgba:
  "c < 4 \<Longrightarrow>
   [pl_r (toPaletteLab palette (p * RGBA_STRIDE)), pl_g (toPaletteLab palette (p * RGBA_STRIDE)),
    pl_b8 (toPaletteLab palette (p * RGBA_STRIDE)), pl_a8 (toPaletteLab palette (p * RGBA_STRIDE))] ! c
     = palette ! (4 * p + c)"
proof -
  assume "c < 4"
  then consider "c = 0" | "c = 1" | "c = 2" | "c = 3" by linarith
  then show ?thesis
    by cases (simp_all add: toPaletteLab_def channel_defs Let_def mult.commute split: prod.splits)
qed

text \<open>
  Claim C4. A pixel whose alpha is 0 keeps its four channels under both mappers. The
  perceptual mapper either returns a buffer with that property or throws before it writes
  (a palette of at least four bytes whose length is not a multiple of four).
\<close>

theorem transparent_pixels_unchanged:
  assumes "img_data img ! (4 * idx + 3) = 0" "c < 4"
  shows "(case mapImageDataToPalette img palette of
            Some d' \<Rightarrow> d' ! (4 * idx + c) = img_data img ! (4 * idx + c)
          | None \<Rightarrow> 4 \<le> length palette \<and> length palette mod 4 \<noteq> 0) \<and>
         mapImageDataToPaletteClassic (img_data img) palette ! (4 * idx + c)
           = img_data img ! (4 * idx + c)"
proof
  show "mapImageDataToPaletteClassic (img_data img) palette ! (4 * idx + c)
           = img_data img ! (4 * idx + c)"
    using assms by (rule classic_transparent)
  consider "length palette < 4" | "4 \<le> length palette" "length palette mod 4 \<noteq> 0"
    | "4 \<le> length palette" "length palette mod 4 = 0" by linarith
  then show "case mapImageDataToPalette img palette of
            Some d' \<Rightarrow> d' ! (4 * idx + c) = img_data img ! (4 * idx + c)
          | None \<Rightarrow> 4 \<le> length palette \<and> length palette mod 4 \<noteq> 0"
  proof cases
    case 1
    then show ?thesis by (simp add: mapImageDataToPalette_def RGBA_STRIDE_def)
  next
    case 2
    then show ?thesis by (simp add: mapImageDataToPalette_def RGBA_STRIDE_def Let_def)
  next
    case 3
    from perceptual_map_nth[OF 3, of img] obtain d' where
      d': "mapImageDataToPalette img palette = Some d'"
      and nth: "\<And>j. d' ! j =
        (if j div 4 < img_width img * img_height img
         then perceptual_pixel (img_width img) (img_height img)
                (Larr_of (img_data img) (img_width img * img_height img))
                (Aarr_of (img_data img) (img_width img * img_height img))
                (Barr_of (img_data img) (img_width img * img_height img))
                (map (\<lambda>k. toPaletteLab palette (k * RGBA_STRIDE)) [0..<length palette div RGBA_STRIDE])
                ((j div 4) mod img_width img) ((j div 4) div img_width img) (img_data img) ! j
         else img_data img ! j)"
      by blast
    have dv: "(4 * idx + c) div 4 = idx" using assms(2) by simp
    have "d' ! (4 * idx + c) = img_data img ! (4 * idx + c)"
      unfolding nth[of "4 * idx + c"] dv perceptual_pixel_nth using assms(1) by simp
    then show ?thesis by (simp add: d')
  qed
qed

theorem transparent_pixels_unchanged_witness:
  "img_data one_transparent ! (4 * 0 + 3) = 0 \<and> (3::nat) < 4 \<and>
   mapImageDataToPalette one_transparent [0, 0, 0, 255] = Some [7, 8, 9, 0] \<and>
   mapImageDataToPaletteClassic (img_data one_transparent) [0, 0, 0, 255] = [7, 8, 9, 0]"
  using transparent_pixels_unchanged[of one_transparent 0 3 "[0, 0, 0, 255]"]
  by (simp add: one_transparent_def mapImageDataToPalette_def perceptual_pixel_def classic_eval)

subsection \<open>The shortlist and the refinement pass\<close>

lemma adjusted_cost_claimed:
  "adjusted_cost Lr ar br (hypot ar br) hW cand
      (Num (deltaE00 Lr ar br (pl_L cand) (pl_a cand) (pl_b cand)))
     = Num (claimed_cost Lr ar br hW cand)"
  by (simp add: adjusted_cost_def claimed_cost_def lab_param_defs Let_def)

lemma find_worst_fold:
  "fst (fold (\<lambda>k worst. if num_lt (snd worst) (ts ! k) then (k, ts ! k) else worst) [0..<n] (0, v)) < max 1 n"
  by (induction n) (auto simp: max_def split: if_splits)

lemma find_worst_lt: "fst (find_worst ts) < K_SHORTLIST"
  using find_worst_fold[of ts K_SHORTLIST "Num (- 1)"] by (simp add: find_worst_def K_SHORTLIST_def)

lemma find_worst_init: "find_worst (replicate K_SHORTLIST PInf) = (0, PInf)"
  by (simp add: find_worst_def K_SHORTLIST_def numeral_eq_Suc)

lemma int16_small: "0 \<le> n \<Longrightarrow> n < 32768 \<Longrightarrow> int16 n = n"
  unfolding int16_def by (simp add: sint_sbintrunc' signed_take_bit_int_eq_self)

lemma shortlist_inv:
  "(let st = fold (shortlist_step Lr ar br pal) [0..<m]
               (replicate K_SHORTLIST (- 1), replicate K_SHORTLIST PInf)
    in length (fst st) = K_SHORTLIST \<and> length (snd st) = K_SHORTLIST \<and>
       (\<forall>k<K_SHORTLIST. slot_ok Lr ar br pal m st k) \<and>
       (0 < m \<longrightarrow> (\<exists>k<K_SHORTLIST. slot_full Lr ar br pal m st k)))"
proof (induction m)
  case 0
  show ?case by (simp add: slot_ok_def)
next
  case (Suc m)
  let ?init = "(replicate K_SHORTLIST (- 1) :: int list, replicate K_SHORTLIST PInf :: real jsnum list)"
  let ?st = "fold (shortlist_step Lr ar br pal) [0..<m] ?init"
  let ?st' = "shortlist_step Lr ar br pal m ?st"
  let ?base = "deltaE00 Lr ar br (pl_L (pal ! m)) (pl_a (pal ! m)) (pl_b (pal ! m))"
  let ?wk = "fst (find_worst (snd ?st))"
  have f: "fold (shortlist_step Lr ar br pal) [0..<Suc m] ?init = ?st'" by simp
  from Suc have len: "length (fst ?st) = K_SHORTLIST" "length (snd ?st) = K_SHORTLIST"
    and ok: "\<And>k. k < K_SHORTLIST \<Longrightarrow> slot_ok Lr ar br pal m ?st k"
    and full: "0 < m \<Longrightarrow> \<exists>k<K_SHORTLIST. slot_full Lr ar br pal m ?st k"
    by (simp_all add: Let_def)
  have wk: "?wk < K_SHORTLIST" by (rule find_worst_lt)
  have mono_ok: "slot_ok Lr ar br pal m st k \<Longrightarrow> slot_ok Lr ar br pal (Suc m) st k" for st k
    unfolding slot_ok_def using less_Suc_eq by blast
  have mono_full: "slot_full Lr ar br pal m st k \<Longrightarrow> slot_full Lr ar br pal (Suc m) st k" for st k
    unfolding slot_full_def using less_Suc_eq by blast
  show ?case
  proof (cases "num_lt (Num ?base) (snd (find_worst (snd ?st)))")
    case False
    then have st': "?st' = ?st" by (simp add: shortlist_step_def Let_def)
    have "0 < m"
    proof (rule ccontr)
      assume "\<not> 0 < m"
      then have "m = 0" by simp
      then show False using False by (simp add: find_worst_init)
    qed
    then show ?thesis unfolding Let_def f st' using len ok full mono_ok mono_full by blast
  next
    case True
    then have st': "?st' = ((fst ?st)[?wk := int16 (int m)], (snd ?st)[?wk := Num ?base])"
      by (simp add: shortlist_step_def Let_def)
    have new: "slot_full Lr ar br pal (Suc m) ?st' ?wk"
      unfolding st' slot_full_def using wk len by (intro exI[of _ m]) simp
    have "slot_ok Lr ar br pal (Suc m) ?st' k" if "k < K_SHORTLIST" for k
    proof (cases "k = ?wk")
      case True
      then show ?thesis using new by (simp add: slot_ok_def slot_full_def)
    next
      case False
      have "slot_ok Lr ar br pal (Suc m) ?st k" using ok[OF that] mono_ok by blast
      then show ?thesis unfolding st' slot_ok_def using False by simp
    qed
    then show ?thesis unfolding Let_def f using new wk len st' by auto
  qed
qed

lemma shortlist_slots:
  assumes "0 < length pal" "length pal \<le> 32768"
  shows "\<forall>k<K_SHORTLIST. 0 \<le> fst (shortlist Lr ar br pal) ! k \<longrightarrow>
           nat (fst (shortlist Lr ar br pal) ! k) < length pal \<and>
           snd (shortlist Lr ar br pal) ! k =
             Num (deltaE00 Lr ar br (pl_L (pal ! nat (fst (shortlist Lr ar br pal) ! k)))
                    (pl_a (pal ! nat (fst (shortlist Lr ar br pal) ! k)))
                    (pl_b (pal ! nat (fst (shortlist Lr ar br pal) ! k))))"
    and "\<exists>k<K_SHORTLIST. 0 \<le> fst (shortlist Lr ar br pal) ! k"
proof -
  let ?st = "shortlist Lr ar br pal"
  from shortlist_inv[of Lr ar br pal "length pal"]
  have ok: "\<And>k. k < K_SHORTLIST \<Longrightarrow> slot_ok Lr ar br pal (length pal) ?st k"
    and full: "\<exists>k<K_SHORTLIST. slot_full Lr ar br pal (length pal) ?st k"
    using assms(1) by (simp_all add: shortlist_def Let_def)
  have i16: "int16 (int p) = int p" if "p < length pal" for p
    using that assms(2) by (simp add: int16_small)
  show "\<forall>k<K_SHORTLIST. 0 \<le> fst ?st ! k \<longrightarrow>
           nat (fst ?st ! k) < length pal \<and>
           snd ?st ! k = Num (deltaE00 Lr ar br (pl_L (pal ! nat (fst ?st ! k)))
                    (pl_a (pal ! nat (fst ?st ! k))) (pl_b (pal ! nat (fst ?st ! k))))"
  proof (intro allI impI)
    fix k assume k: "k < K_SHORTLIST" and v: "0 \<le> fst ?st ! k"
    from ok[OF k] v obtain p where p: "p < length pal" "fst ?st ! k = int16 (int p)"
      "snd ?st ! k = Num (deltaE00 Lr ar br (pl_L (pal ! p)) (pl_a (pal ! p)) (pl_b (pal ! p)))"
      unfolding slot_ok_def by auto
    have "nat (fst ?st ! k) = p" using p(2) i16[OF p(1)] by simp
    then show "nat (fst ?st ! k) < length pal \<and>
           snd ?st ! k = Num (deltaE00 Lr ar br (pl_L (pal ! nat (fst ?st ! k)))
                    (pl_a (pal ! nat (fst ?st ! k))) (pl_b (pal ! nat (fst ?st ! k))))"
      using p by simp
  qed
  from full obtain k p where "k < K_SHORTLIST" "p < length pal" "fst ?st ! k = int16 (int p)"
    unfolding slot_full_def by blast
  then show "\<exists>k<K_SHORTLIST. 0 \<le> fst ?st ! k" using i16 by (intro exI[of _ k]) simp
qed

lemma refine_inv:
  assumes cost: "\<And>k. k < K_SHORTLIST \<Longrightarrow> 0 \<le> ti ! k \<Longrightarrow>
            adjusted_cost Lr ar br Cr hW (pal ! nat (ti ! k)) (ts ! k) = Num (c k)"
    and m: "m \<le> K_SHORTLIST"
  shows "(let st = fold (refine_step Lr ar br Cr hW pal ti ts) [0..<m] (b0, PInf)
          in ((\<forall>k<m. ti ! k < 0) \<and> st = (b0, PInf)) \<or>
             (\<exists>k<m. 0 \<le> ti ! k \<and> st = (ti ! k, Num (c k)) \<and>
                (\<forall>k'<m. 0 \<le> ti ! k' \<longrightarrow> c k \<le> c k') \<and>
                (\<forall>k'<k. 0 \<le> ti ! k' \<longrightarrow> c k < c k')))"
  using m
proof (induction m)
  case 0
  show ?case by simp
next
  case (Suc m)
  let ?f = "refine_step Lr ar br Cr hW pal ti ts"
  let ?st = "fold ?f [0..<m] (b0, PInf)"
  have f: "fold ?f [0..<Suc m] (b0, PInf) = ?f m ?st" by simp
  have mk: "m < K_SHORTLIST" using Suc.prems by simp
  from Suc have ih: "((\<forall>k<m. ti ! k < 0) \<and> ?st = (b0, PInf)) \<or>
             (\<exists>k<m. 0 \<le> ti ! k \<and> ?st = (ti ! k, Num (c k)) \<and>
                (\<forall>k'<m. 0 \<le> ti ! k' \<longrightarrow> c k \<le> c k') \<and>
                (\<forall>k'<k. 0 \<le> ti ! k' \<longrightarrow> c k < c k'))"
    by (simp add: Let_def)
  show ?case
  proof (cases "ti ! m < 0")
    case True
    then have st': "?f m ?st = ?st" by (simp add: refine_step_def Let_def)
    from ih show ?thesis
    proof
      assume "(\<forall>k<m. ti ! k < 0) \<and> ?st = (b0, PInf)"
      then show ?thesis unfolding Let_def f st' using True by (auto simp: less_Suc_eq)
    next
      assume "\<exists>k<m. 0 \<le> ti ! k \<and> ?st = (ti ! k, Num (c k)) \<and>
                (\<forall>k'<m. 0 \<le> ti ! k' \<longrightarrow> c k \<le> c k') \<and>
                (\<forall>k'<k. 0 \<le> ti ! k' \<longrightarrow> c k < c k')"
      then obtain k where k: "k < m" "0 \<le> ti ! k" "?st = (ti ! k, Num (c k))"
        "\<forall>k'<m. 0 \<le> ti ! k' \<longrightarrow> c k \<le> c k'" "\<forall>k'<k. 0 \<le> ti ! k' \<longrightarrow> c k < c k'"
        by blast
      have "\<forall>k'<Suc m. 0 \<le> ti ! k' \<longrightarrow> c k \<le> c k'" using k(4) True by (auto simp: less_Suc_eq)
      then show ?thesis unfolding Let_def f st' using k
        by (intro disjI2 exI[of _ k]) simp
    qed
  next
    case False
    then have v: "0 \<le> ti ! m" by simp
    have cm: "adjusted_cost Lr ar br Cr hW (pal ! nat (ti ! m)) (ts ! m) = Num (c m)"
      using cost[OF mk v] .
    have st': "?f m ?st = (if num_lt (Num (c m)) (snd ?st) then (ti ! m, Num (c m)) else ?st)"
      using False by (simp add: refine_step_def Let_def cm)
    from ih show ?thesis
    proof
      assume a: "(\<forall>k<m. ti ! k < 0) \<and> ?st = (b0, PInf)"
      then have "?f m ?st = (ti ! m, Num (c m))" using st' by simp
      moreover have "\<forall>k'<Suc m. 0 \<le> ti ! k' \<longrightarrow> c m \<le> c k'" using a by (auto simp: less_Suc_eq)
      moreover have "\<forall>k'<m. 0 \<le> ti ! k' \<longrightarrow> c m < c k'" using a by auto
      ultimately show ?thesis unfolding Let_def f using v
        by (intro disjI2 exI[of _ m]) simp
    next
      assume "\<exists>k<m. 0 \<le> ti ! k \<and> ?st = (ti ! k, Num (c k)) \<and>
                (\<forall>k'<m. 0 \<le> ti ! k' \<longrightarrow> c k \<le> c k') \<and>
                (\<forall>k'<k. 0 \<le> ti ! k' \<longrightarrow> c k < c k')"
      then obtain k where k: "k < m" "0 \<le> ti ! k" "?st = (ti ! k, Num (c k))"
        "\<forall>k'<m. 0 \<le> ti ! k' \<longrightarrow> c k \<le> c k'" "\<forall>k'<k. 0 \<le> ti ! k' \<longrightarrow> c k < c k'"
        by blast
      show ?thesis
      proof (cases "c m < c k")
        case True
        then have "?f m ?st = (ti ! m, Num (c m))" using st' k(3) by simp
        moreover have "\<forall>k'<Suc m. 0 \<le> ti ! k' \<longrightarrow> c m \<le> c k'"
          using True k(4) by (force simp: less_Suc_eq)
        moreover have "\<forall>k'<m. 0 \<le> ti ! k' \<longrightarrow> c m < c k'" using True k(4) by force
        ultimately show ?thesis unfolding Let_def f using v
          by (intro disjI2 exI[of _ m]) simp
      next
        case False
        then have "?f m ?st = (ti ! k, Num (c k))" using st' k(3) by simp
        moreover have "\<forall>k'<Suc m. 0 \<le> ti ! k' \<longrightarrow> c k \<le> c k'"
          using False k(4) by (auto simp: less_Suc_eq)
        ultimately show ?thesis unfolding Let_def f using k
          by (intro disjI2 exI[of _ k]) simp
      qed
    qed
  qed
qed

lemma refine_char:
  assumes cost: "\<And>k. k < K_SHORTLIST \<Longrightarrow> 0 \<le> ti ! k \<Longrightarrow>
            adjusted_cost Lr ar br Cr hW (pal ! nat (ti ! k)) (ts ! k) = Num (c k)"
    and some: "\<exists>k<K_SHORTLIST. 0 \<le> ti ! k"
  shows "\<exists>k<K_SHORTLIST. 0 \<le> ti ! k \<and> refine Lr ar br Cr hW pal ti ts = ti ! k \<and>
            (\<forall>k'<K_SHORTLIST. 0 \<le> ti ! k' \<longrightarrow> c k \<le> c k') \<and>
            (\<forall>k'<k. 0 \<le> ti ! k' \<longrightarrow> c k < c k')"
proof -
  let ?b0 = "if 0 \<le> ti ! 0 then ti ! 0 else 0"
  let ?st = "fold (refine_step Lr ar br Cr hW pal ti ts) [0..<K_SHORTLIST] (?b0, PInf)"
  from refine_inv[of ti Lr ar br Cr hW pal ts c K_SHORTLIST ?b0, OF cost] some
  obtain k where k: "k < K_SHORTLIST" "0 \<le> ti ! k" "?st = (ti ! k, Num (c k))"
    "\<forall>k'<K_SHORTLIST. 0 \<le> ti ! k' \<longrightarrow> c k \<le> c k'" "\<forall>k'<k. 0 \<le> ti ! k' \<longrightarrow> c k < c k'"
    unfolding Let_def by (auto simp: not_less[symmetric])
  have "refine Lr ar br Cr hW pal ti ts = ti ! k"
    unfolding refine_def using k(3) by simp
  then show ?thesis using k by blast
qed

text \<open>
  For an opaque pixel and a palette of at most 32768 entries (the indices an
  \<^verbatim>\<open>Int16Array\<close> holds), every shortlisted candidate is a palette entry whose adjusted
  cost in the refinement pass is its raw CIEDE2000 distance plus the lightness, chroma,
  hue and neutral terms of \<open>claimed_cost\<close>; the pixel receives the four bytes, alpha
  included, of a shortlisted candidate of minimal adjusted cost. The statement is about
  the model, whose stored scores are exact; in the code the score read back by the
  refinement pass is the distance rounded to single precision.
\<close>

theorem refinement_cost_and_choice:
  assumes pal: "4 \<le> length palette" "length palette mod 4 = 0" "length palette div 4 \<le> 32768"
    and xy: "x < img_width img" "y < img_height img"
    and len: "length (img_data img) = 4 * (img_width img * img_height img)"
    and opaque: "img_data img ! (4 * (y * img_width img + x) + 3) \<noteq> 0"
  shows "\<exists>d'. mapImageDataToPalette img palette = Some d' \<and>
     (let w = img_width img; h = img_height img; d = img_data img;
          idx = y * w + x;
          Lr = fst (labAt d idx); ar = fst (snd (labAt d idx)); br = snd (snd (labAt d idx));
          hW = hueWeightAt w h (Aarr_of d (w * h)) (Barr_of d (w * h)) (int x) (int y);
          pal = map (\<lambda>k. toPaletteLab palette (k * RGBA_STRIDE)) [0..<length palette div RGBA_STRIDE];
          topIdx = fst (shortlist Lr ar br pal);
          topScore = snd (shortlist Lr ar br pal)
      in (\<forall>k<K_SHORTLIST. 0 \<le> topIdx ! k \<longrightarrow>
            nat (topIdx ! k) < length pal \<and>
            adjusted_cost Lr ar br (hypot ar br) hW (pal ! nat (topIdx ! k)) (topScore ! k)
              = Num (claimed_cost Lr ar br hW (pal ! nat (topIdx ! k)))) \<and>
         (\<exists>k<K_SHORTLIST. 0 \<le> topIdx ! k \<and>
            (\<forall>c<4. d' ! (4 * idx + c) = palette ! (4 * nat (topIdx ! k) + c)) \<and>
            (\<forall>k'<K_SHORTLIST. 0 \<le> topIdx ! k' \<longrightarrow>
               claimed_cost Lr ar br hW (pal ! nat (topIdx ! k))
                 \<le> claimed_cost Lr ar br hW (pal ! nat (topIdx ! k')))))"
proof -
  let ?w = "img_width img" and ?h = "img_height img" and ?d = "img_data img"
  let ?idx = "y * ?w + x"
  let ?Lr = "fst (labAt ?d ?idx)" and ?ar = "fst (snd (labAt ?d ?idx))" and ?br = "snd (snd (labAt ?d ?idx))"
  let ?A = "Aarr_of ?d (?w * ?h)" and ?B = "Barr_of ?d (?w * ?h)" and ?L = "Larr_of ?d (?w * ?h)"
  let ?hW = "hueWeightAt ?w ?h ?A ?B (int x) (int y)"
  let ?pal = "map (\<lambda>k. toPaletteLab palette (k * RGBA_STRIDE)) [0..<length palette div RGBA_STRIDE]"
  let ?ti = "fst (shortlist ?Lr ?ar ?br ?pal)" and ?ts = "snd (shortlist ?Lr ?ar ?br ?pal)"
  let ?c = "\<lambda>k. claimed_cost ?Lr ?ar ?br ?hW (?pal ! nat (?ti ! k))"
  have idx: "?idx < ?w * ?h" "?idx mod ?w = x" "?idx div ?w = y" using pixel_index[OF xy] .
  have pl: "length ?pal = length palette div 4" "0 < length ?pal" "length ?pal \<le> 32768"
    using pal by (simp_all add: RGBA_STRIDE_def)
  note sl = shortlist_slots[OF pl(2,3), of ?Lr ?ar ?br]
  have cost: "adjusted_cost ?Lr ?ar ?br (hypot ?ar ?br) ?hW (?pal ! nat (?ti ! k)) (?ts ! k) = Num (?c k)"
    if "k < K_SHORTLIST" "0 \<le> ?ti ! k" for k
    using sl(1)[rule_format, OF that] by (simp only: adjusted_cost_claimed)
  from refine_char[of ?ti ?Lr ?ar ?br "hypot ?ar ?br" ?hW ?pal ?ts ?c, OF cost sl(2)]
  obtain k where k: "k < K_SHORTLIST" "0 \<le> ?ti ! k"
    "refine ?Lr ?ar ?br (hypot ?ar ?br) ?hW ?pal ?ti ?ts = ?ti ! k"
    "\<forall>k'<K_SHORTLIST. 0 \<le> ?ti ! k' \<longrightarrow> ?c k \<le> ?c k'"
    by blast
  have best: "perceptual_best ?w ?h ?L ?A ?B ?pal x y = ?pal ! nat (?ti ! k)"
    unfolding perceptual_best_def Let_def lab_arrays_nth[OF idx(1)] k(3) ..
  have kp: "nat (?ti ! k) < length palette div 4"
    using sl(1)[rule_format, OF k(1,2)] pl(1) by simp
  have entry: "?pal ! nat (?ti ! k) = toPaletteLab palette (nat (?ti ! k) * RGBA_STRIDE)"
    using kp by (simp add: RGBA_STRIDE_def)
  from perceptual_map_nth[OF pal(1,2), of img] obtain d' where
    d': "mapImageDataToPalette img palette = Some d'"
    and nth: "\<And>j. d' ! j =
        (if j div 4 < ?w * ?h
         then perceptual_pixel ?w ?h ?L ?A ?B ?pal ((j div 4) mod ?w) ((j div 4) div ?w) ?d ! j
         else ?d ! j)"
    by blast
  have px: "d' ! (4 * ?idx + c) = palette ! (4 * nat (?ti ! k) + c)" if c: "c < 4" for c
  proof -
    have dv: "(4 * ?idx + c) div 4 = ?idx" using c by simp
    have inr: "4 * ?idx + c < length ?d" using idx(1) c len by simp
    have "d' ! (4 * ?idx + c) = perceptual_pixel ?w ?h ?L ?A ?B ?pal x y ?d ! (4 * ?idx + c)"
      unfolding nth[of "4 * ?idx + c"] dv idx(2,3) using idx(1) by simp
    also have "\<dots> = [pl_r (?pal ! nat (?ti ! k)), pl_g (?pal ! nat (?ti ! k)),
            pl_b8 (?pal ! nat (?ti ! k)), pl_a8 (?pal ! nat (?ti ! k))] ! c"
      unfolding perceptual_pixel_nth best using opaque inr c by simp
    also have "\<dots> = palette ! (4 * nat (?ti ! k) + c)"
      unfolding entry by (rule toPaletteLab_rgba[OF c])
    finally show ?thesis .
  qed
  have A: "\<forall>k<K_SHORTLIST. 0 \<le> ?ti ! k \<longrightarrow>
            nat (?ti ! k) < length ?pal \<and>
            adjusted_cost ?Lr ?ar ?br (hypot ?ar ?br) ?hW (?pal ! nat (?ti ! k)) (?ts ! k) = Num (?c k)"
    using sl(1) cost by blast
  have B: "\<exists>k<K_SHORTLIST. 0 \<le> ?ti ! k \<and>
            (\<forall>c<4. d' ! (4 * ?idx + c) = palette ! (4 * nat (?ti ! k) + c)) \<and>
            (\<forall>k'<K_SHORTLIST. 0 \<le> ?ti ! k' \<longrightarrow> ?c k \<le> ?c k')"
    using k(1,2,4) px by blast
  show ?thesis unfolding Let_def using d' A B by blast
qed

theorem refinement_cost_and_choice_witness:
  "4 \<le> length [0, 0, 0, 255 :: byte] \<and> length [0, 0, 0, 255 :: byte] mod 4 = 0 \<and>
   length [0, 0, 0, 255 :: byte] div 4 \<le> 32768 \<and>
   0 < img_width one_red \<and> 0 < img_height one_red \<and>
   length (img_data one_red) = 4 * (img_width one_red * img_height one_red) \<and>
   img_data one_red ! (4 * (0 * img_width one_red + 0) + 3) \<noteq> 0 \<and>
   (\<exists>d'. mapImageDataToPalette one_red [0, 0, 0, 255] = Some d' \<and>
      d' ! 0 = 0 \<and> d' ! 1 = 0 \<and> d' ! 2 = 0 \<and> d' ! 3 = 255)"
proof -
  let ?pal = "[0, 0, 0, 255 :: byte]"
  have h: "4 \<le> length ?pal" "length ?pal mod 4 = 0" "length ?pal div 4 \<le> 32768"
    "0 < img_width one_red" "0 < img_height one_red"
    "length (img_data one_red) = 4 * (img_width one_red * img_height one_red)"
    "img_data one_red ! (4 * (0 * img_width one_red + 0) + 3) \<noteq> 0"
    by (simp_all add: one_red_def)
  let ?d = "img_data one_red" and ?idx = "0 * img_width one_red + 0"
  let ?pl = "map (\<lambda>k. toPaletteLab ?pal (k * RGBA_STRIDE)) [0..<length ?pal div RGBA_STRIDE]"
  let ?ti = "fst (shortlist (fst (labAt ?d ?idx)) (fst (snd (labAt ?d ?idx))) (snd (snd (labAt ?d ?idx))) ?pl)"
  note c = refinement_cost_and_choice[OF h, unfolded Let_def]
  from c obtain d' where d': "mapImageDataToPalette one_red ?pal = Some d'"
    and A: "\<forall>k<K_SHORTLIST. 0 \<le> ?ti ! k \<longrightarrow> nat (?ti ! k) < length ?pl"
    and B: "\<exists>k<K_SHORTLIST. 0 \<le> ?ti ! k \<and> (\<forall>c<4. d' ! (4 * ?idx + c) = ?pal ! (4 * nat (?ti ! k) + c))"
    by blast
  from B obtain k where k: "k < K_SHORTLIST" "0 \<le> ?ti ! k"
    and px: "\<forall>c<4. d' ! (4 * ?idx + c) = ?pal ! (4 * nat (?ti ! k) + c)"
    by blast
  have "nat (?ti ! k) < length ?pl" using A k by blast
  then have z: "nat (?ti ! k) = 0" by (simp add: RGBA_STRIDE_def)
  have "d' ! 0 = 0" using px[rule_format, of 0] unfolding z by simp
  moreover have "d' ! 1 = 0" using px[rule_format, of 1] unfolding z by simp
  moreover have "d' ! 2 = 0" using px[rule_format, of 2] unfolding z by (simp add: numeral_2_eq_2)
  moreover have "d' ! 3 = 255" using px[rule_format, of 3] unfolding z by simp
  ultimately have "d' ! 0 = 0 \<and> d' ! 1 = 0 \<and> d' ! 2 = 0 \<and> d' ! 3 = 255" by blast
  then show ?thesis using h d' by blast
qed

subsection \<open>The hue-stability weight\<close>




lemma srgb_255: "srgbToLinearComponent 255 = 1"
  by (simp add: srgbToLinearComponent_def)

lemma srgb_0: "srgbToLinearComponent 0 = 0"
  by (simp add: srgbToLinearComponent_def)


lemma black_lab: "rgbToLab 0 0 0 = (0, 0, 0)"
  by (simp add: rgbToLab_def rgbToXyz_def xyzToLab_def srgb_0 Let_def)







lemma num_plus_Num: "num_plus (Num x) y = Num (x + y)" by simp








subsection \<open>A pixel whose colour depends on the alpha of its neighbour\<close>

text \<open>
  For a palette of two entries the shortlist holds both, and the refinement pass picks the
  second entry exactly when its adjusted cost is strictly smaller than that of the first.
\<close>

lemma replicate_K: "replicate K_SHORTLIST x = [x, x, x, x, x, x, x, x]"
  by (simp add: K_SHORTLIST_def numeral_eq_Suc)

lemma adjusted_cost_Num:
  "adjusted_cost Lr ar br Cr hW cand (Num base) =
     Num (base + LAMBDA_L * max 0 (\<bar>Lr - pl_L cand\<bar> - TAU_L_LAB)
            + LAMBDA_C * max 0 (\<bar>Cr - pl_C cand\<bar> - TAU_C_LAB)
            + (if C_NEUTRAL_GATE \<le> Cr
               then LAMBDA_H * hW * (1 - cos (deltaHue ar br (pl_a cand) (pl_b cand))) else 0)
            + (if Cr < C_NEUTRAL_BIAS then KAPPA_NEUTRAL * pl_C cand else 0))"
  by (simp add: adjusted_cost_def Let_def)




























subsection \<open>A palette beyond the range of the Int16Array\<close>

text \<open>
  The store of index 65536 into the \<^verbatim>\<open>Int16Array\<close> wraps to 0. With 65536 black entries
  followed by red, the red pixel's exact match enters the shortlist with raw distance 0
  under the index of the first black entry.
\<close>

lemma shortlist_step_insert:
  "shortlist_step Lr ar br pal pidx topK =
     shortlist_insert (deltaE00 Lr ar br (pl_L (pal ! pidx)) (pl_a (pal ! pidx)) (pl_b (pal ! pidx))) pidx topK"
  by (simp add: shortlist_step_def shortlist_insert_def Let_def)

lemma concat_replicate_nth:
  assumes "length xs = m" "0 < m" "i < m * n"
  shows "concat (replicate n xs) ! i = xs ! (i mod m)"
  using assms(3)
proof (induction n arbitrary: i)
  case 0
  then show ?case by simp
next
  case (Suc n)
  have step: "concat (replicate (Suc n) xs) = xs @ concat (replicate n xs)" by simp
  show ?case
  proof (cases "i < m")
    case True
    then show ?thesis unfolding step using assms(1) by (simp add: nth_append)
  next
    case False
    define j where "j = i - m"
    have i: "i = length xs + j" using False assms(1) by (simp add: j_def)
    have "j < m * n" using Suc.prems False by (simp add: j_def)
    then have "concat (replicate n xs) ! j = xs ! (j mod m)" by (rule Suc.IH)
    moreover have "j mod m = i mod m" unfolding i assms(1) by simp
    ultimately show ?thesis unfolding step i nth_append_length_plus by simp
  qed
qed

lemma concat_replicate4_nth:
  "i < 4 * n \<Longrightarrow> concat (replicate n [a, b, c, e]) ! i = [a, b, c, e] ! (i mod 4)"
  by (rule concat_replicate_nth) simp_all

lemma length_big_palette: "length big_palette = 262148"
  by (simp add: big_palette_def length_concat sum_list_replicate)

lemma big_palette_black:
  assumes "p < 65536" "c < 4"
  shows "big_palette ! (p * 4 + c) = [0, 0, 0, 255] ! c"
proof -
  have "p * 4 + c < 4 * 65536" using assms by simp
  then have "big_palette ! (p * 4 + c) = [0, 0, 0, 255 :: byte] ! ((p * 4 + c) mod 4)"
    unfolding big_palette_def
    by (simp add: nth_append length_concat sum_list_replicate concat_replicate4_nth)
  then show ?thesis using assms(2) by simp
qed

lemma big_palette_red:
  assumes "c < 4"
  shows "big_palette ! (65536 * 4 + c) = [255, 0, 0, 255] ! c"
  unfolding big_palette_def using assms
  by (simp add: nth_append length_concat sum_list_replicate)

lemma big_pal_entries:
  "p < 65536 \<Longrightarrow>
     map (\<lambda>k. toPaletteLab big_palette (k * RGBA_STRIDE)) [0..<length big_palette div RGBA_STRIDE] ! p
       = toPaletteLab [0, 0, 0, 255] 0"
  "map (\<lambda>k. toPaletteLab big_palette (k * RGBA_STRIDE)) [0..<length big_palette div RGBA_STRIDE] ! 65536
       = toPaletteLab [255, 0, 0, 255] 0"
proof -
  have n: "length big_palette div RGBA_STRIDE = 65537"
    by (simp add: length_big_palette RGBA_STRIDE_def)
  show "map (\<lambda>k. toPaletteLab big_palette (k * RGBA_STRIDE)) [0..<length big_palette div RGBA_STRIDE] ! p
       = toPaletteLab [0, 0, 0, 255] 0" if "p < 65536"
    unfolding n using that big_palette_black[OF that, of 0] big_palette_black[OF that, of 1]
      big_palette_black[OF that, of 2] big_palette_black[OF that, of 3]
    by (simp add: toPaletteLab_def channel_defs Let_def)
  show "map (\<lambda>k. toPaletteLab big_palette (k * RGBA_STRIDE)) [0..<length big_palette div RGBA_STRIDE] ! 65536
       = toPaletteLab [255, 0, 0, 255] 0"
    unfolding n using big_palette_red[of 0] big_palette_red[of 1] big_palette_red[of 2] big_palette_red[of 3]
    by (simp add: toPaletteLab_def channel_defs Let_def)
qed

lemma fold_three_phase:
  assumes "n1 \<le> n2"
  shows "fold f [0..<Suc n2] s = f n2 (fold f [n1..<n2] (fold f [0..<n1] s))"
proof -
  have "[0..<n1 + (n2 - n1)] = [0..<n1] @ [n1..<n1 + (n2 - n1)]"
    by (rule upt_add_eq_append) simp
  then have "[0..<n2] = [0..<n1] @ [n1..<n2]" using assms by simp
  then show ?thesis by simp
qed

lemma fold_upt_fixed:
  assumes "\<And>x. n1 \<le> x \<Longrightarrow> x < n2 \<Longrightarrow> f x s = s"
  shows "fold f [n1..<n2] s = s"
proof -
  have "fold f xs s = s" if "\<And>x. x \<in> set xs \<Longrightarrow> f x s = s" for xs
    using that by (induction xs) simp_all
  from this[of "[n1..<n2]"] show ?thesis using assms by simp
qed

lemma red_L_pos: "0 < fst (rgbToLab 255 0 0)"
proof -
  have "root 3 ((1 / 2) ^ 3) \<le> root 3 0.2126729"
    by (subst real_root_le_iff) (simp_all add: power3_eq_cube)
  then have "1 / 2 \<le> root 3 0.2126729" by (simp add: real_root_power_cancel)
  moreover have "fst (rgbToLab 255 0 0) = 116 * root 3 0.2126729 - 16"
    by (simp add: rgbToLab_def rgbToXyz_def xyzToLab_def srgb_255 srgb_0 Let_def)
  ultimately show ?thesis by simp
qed

lemma de_core_no_hue_pos:
  assumes "x \<noteq> 0"
  shows "0 < de_core l c h x y 0"
proof -
  define Sl where "Sl = 1 + (0.015 * (l - 50) ^ 2) / sqrt (20 + (l - 50) ^ 2)"
  define Sc where "Sc = 1 + 0.045 * c"
  have "0 \<le> (0.015 * (l - 50) ^ 2) / sqrt (20 + (l - 50) ^ 2)"
    by (intro divide_nonneg_nonneg mult_nonneg_nonneg real_sqrt_ge_zero add_nonneg_nonneg) simp_all
  then have Sl: "0 < Sl" unfolding Sl_def by linarith
  have e: "de_core l c h x y 0 = sqrt ((x / Sl) * (x / Sl) + (y / Sc) * (y / Sc))"
    by (simp add: de_core_def Let_def Sl_def Sc_def)
  have "x / Sl \<noteq> 0" using assms Sl by simp
  then have "0 < (x / Sl)\<^sup>2" by simp
  then have "0 < (x / Sl) * (x / Sl)" by (simp only: power2_eq_square)
  moreover have "0 \<le> (y / Sc) * (y / Sc)" by simp
  ultimately have "0 < (x / Sl) * (x / Sl) + (y / Sc) * (y / Sc)" by linarith
  then show ?thesis unfolding e by simp
qed

lemma deltaE00_to_black_pos:
  assumes "0 < L1"
  shows "0 < deltaE00 L1 a1 b1 0 0 0"
proof -
  have h: "hypot x 0 = \<bar>x\<bar>" for x by (simp add: hypot_def)
  have "0 - L1 \<noteq> 0" using assms by simp
  from de_core_no_hue_pos[OF this] show ?thesis
    unfolding deltaE00_parts Let_def by (simp add: h)
qed

lemma red_black_distance_pos:
  "0 < deltaE00 (fst (rgbToLab 255 0 0)) (fst (snd (rgbToLab 255 0 0))) (snd (snd (rgbToLab 255 0 0))) 0 0 0"
  by (rule deltaE00_to_black_pos) (rule red_L_pos)

lemma find_worst_full:
  "0 < d0 \<Longrightarrow> find_worst (replicate K_SHORTLIST (Num d0)) = (0, Num d0)"
  by (simp add: find_worst_def K_SHORTLIST_def numeral_eq_Suc)

lemma insert_first_eight:
  assumes "0 < d0"
  shows "fold (shortlist_insert d0) [0..<K_SHORTLIST]
           (replicate K_SHORTLIST (- 1), replicate K_SHORTLIST PInf)
         = ([0, 1, 2, 3, 4, 5, 6, 7], replicate K_SHORTLIST (Num d0))"
proof -
  have i: "int16 0 = 0" "int16 1 = 1" "int16 2 = 2" "int16 3 = 3" "int16 4 = 4" "int16 5 = 5"
    "int16 6 = 6" "int16 7 = 7"
    by (simp_all add: int16_small)
  have u: "[0..<K_SHORTLIST] = [0, 1, 2, 3, 4, 5, 6, 7]"
    unfolding K_SHORTLIST_def by code_simp
  have r: "replicate K_SHORTLIST x = [x, x, x, x, x, x, x, x]" for x :: 'a
    by (simp add: K_SHORTLIST_def numeral_eq_Suc)
  have fw: "find_worst ts = fold (\<lambda>k worst. if num_lt (snd worst) (ts ! k) then (k, ts ! k) else worst)
       [0, 1, 2, 3, 4, 5, 6, 7] (0, Num (- 1))" for ts
    unfolding find_worst_def u ..
  show ?thesis
    unfolding u r using assms
    by (simp add: shortlist_insert_def fw Let_def i)
qed

lemma red_lab_at: "red_L = fst (rgbToLab 255 0 0)" "red_a = fst (snd (rgbToLab 255 0 0))"
  "red_b = snd (snd (rgbToLab 255 0 0))"
  by (simp_all add: red_L_def red_a_def red_b_def one_red_def labAt_def channel_defs Let_def)

lemma toPaletteLab_lab:
  "pl_L (toPaletteLab [r, g, b, a] 0) = fst (rgbToLab (real_of_int (uint r)) (real_of_int (uint g)) (real_of_int (uint b)))"
  "pl_a (toPaletteLab [r, g, b, a] 0) = fst (snd (rgbToLab (real_of_int (uint r)) (real_of_int (uint g)) (real_of_int (uint b))))"
  "pl_b (toPaletteLab [r, g, b, a] 0) = snd (snd (rgbToLab (real_of_int (uint r)) (real_of_int (uint g)) (real_of_int (uint b))))"
  by (simp_all add: toPaletteLab_def channel_defs Let_def split: prod.splits)

lemma big_pal_nth:
  "p < 65536 \<Longrightarrow> big_pal ! p = toPaletteLab [0, 0, 0, 255] 0"
  "big_pal ! 65536 = toPaletteLab [255, 0, 0, 255] 0"
  "length big_pal = Suc 65536"
proof -
  show "p < 65536 \<Longrightarrow> big_pal ! p = toPaletteLab [0, 0, 0, 255] 0"
    unfolding big_pal_def by (rule big_pal_entries(1))
  show "big_pal ! 65536 = toPaletteLab [255, 0, 0, 255] 0"
    unfolding big_pal_def by (rule big_pal_entries(2))
  show "length big_pal = Suc 65536"
    unfolding big_pal_def by (simp add: length_big_palette RGBA_STRIDE_def)
qed

lemma red_black_pos: "0 < red_black"
  unfolding red_black_def red_lab_at by (rule red_black_distance_pos)

lemma big_step_black:
  assumes "p < 65536"
  shows "shortlist_step red_L red_a red_b big_pal p topK = shortlist_insert red_black p topK"
  unfolding shortlist_step_insert big_pal_nth(1)[OF assms] toPaletteLab_lab red_black_def
  by (simp add: black_lab)

lemma big_step_red:
  "shortlist_step red_L red_a red_b big_pal 65536 topK = shortlist_insert 0 65536 topK"
  unfolding shortlist_step_insert big_pal_nth(2) toPaletteLab_lab
  by (simp add: red_lab_at[symmetric] deltaE00_self)

lemma int16_wraps: "int16 65536 = 0"
  by (simp add: int16_def)

lemma big_shortlist:
  "shortlist red_L red_a red_b big_pal =
     ([0, 1, 2, 3, 4, 5, 6, 7],
      [Num 0, Num red_black, Num red_black, Num red_black, Num red_black, Num red_black,
       Num red_black, Num red_black])"
proof -
  let ?f = "shortlist_step red_L red_a red_b big_pal"
  let ?init = "(replicate K_SHORTLIST (- 1) :: int list, replicate K_SHORTLIST PInf :: real jsnum list)"
  let ?S8 = "([0, 1, 2, 3, 4, 5, 6, 7] :: int list, replicate K_SHORTLIST (Num red_black))"
  have k: "K_SHORTLIST \<le> 65536" by (simp add: K_SHORTLIST_def)
  have p1: "fold ?f [0..<K_SHORTLIST] ?init = ?S8"
  proof -
    have "fold ?f [0..<K_SHORTLIST] ?init = fold (shortlist_insert red_black) [0..<K_SHORTLIST] ?init"
      by (rule fold_cong) (use k in \<open>auto simp: big_step_black\<close>)
    then show ?thesis using insert_first_eight[OF red_black_pos] by simp
  qed
  have p2: "fold ?f [K_SHORTLIST..<65536] ?S8 = ?S8"
  proof (rule fold_upt_fixed)
    fix x :: nat assume "K_SHORTLIST \<le> x" "x < 65536"
    then show "?f x ?S8 = ?S8"
      by (simp add: big_step_black shortlist_insert_def find_worst_full[OF red_black_pos])
  qed
  have p3: "?f 65536 ?S8 = ([0, 1, 2, 3, 4, 5, 6, 7],
      [Num 0, Num red_black, Num red_black, Num red_black, Num red_black, Num red_black,
       Num red_black, Num red_black])"
    unfolding big_step_red shortlist_insert_def snd_conv fst_conv find_worst_full[OF red_black_pos] Let_def
    using red_black_pos by (simp add: int16_wraps replicate_K)
  show ?thesis
    unfolding shortlist_def big_pal_nth(3) fold_three_phase[OF k] p1 p2 p3 ..
qed

lemma adjusted_cost_base_inj:
  "adjusted_cost Lr ar br Cr hW cand (Num b1) = adjusted_cost Lr ar br Cr hW cand (Num b2) \<Longrightarrow> b1 = b2"
  unfolding adjusted_cost_Num by simp

lemma refine_range:
  "fst (fold (refine_step Lr ar br Cr hW pal ti ts) [0..<m] best) \<in> insert (fst best) {ti ! k | k. k < m}"
proof (induction m)
  case 0
  show ?case by simp
next
  case (Suc m)
  let ?st = "fold (refine_step Lr ar br Cr hW pal ti ts) [0..<m] best"
  have f: "fold (refine_step Lr ar br Cr hW pal ti ts) [0..<Suc m] best
      = refine_step Lr ar br Cr hW pal ti ts m ?st" by simp
  have "fst (refine_step Lr ar br Cr hW pal ti ts m ?st) = fst ?st \<or>
        fst (refine_step Lr ar br Cr hW pal ti ts m ?st) = ti ! m"
    by (simp add: refine_step_def Let_def)
  then show ?case
  proof
    assume "fst (refine_step Lr ar br Cr hW pal ti ts m ?st) = fst ?st"
    then have "fst (refine_step Lr ar br Cr hW pal ti ts m ?st) \<in> insert (fst best) {ti ! k | k. k < m}"
      using Suc by simp
    moreover have "{ti ! k | k. k < m} \<subseteq> {ti ! k | k. k < Suc m}" using less_Suc_eq by blast
    ultimately show ?thesis unfolding f by blast
  next
    assume "fst (refine_step Lr ar br Cr hW pal ti ts m ?st) = ti ! m"
    moreover have "ti ! m \<in> {ti ! k | k. k < Suc m}" by blast
    ultimately show ?thesis unfolding f by simp
  qed
qed

lemma big_refine:
  "0 \<le> refine red_L red_a red_b Cr hW big_pal (fst (shortlist red_L red_a red_b big_pal))
          (snd (shortlist red_L red_a red_b big_pal)) \<and>
   refine red_L red_a red_b Cr hW big_pal (fst (shortlist red_L red_a red_b big_pal))
          (snd (shortlist red_L red_a red_b big_pal)) < 8"
proof -
  let ?ti = "[0, 1, 2, 3, 4, 5, 6, 7] :: int list"
  have v: "0 \<le> ?ti ! k \<and> ?ti ! k < 8" if "k < K_SHORTLIST" for k
  proof -
    from that have "k < 8" by (simp add: K_SHORTLIST_def)
    then consider "k = 0" | "k = 1" | "k = 2" | "k = 3" | "k = 4" | "k = 5" | "k = 6" | "k = 7"
      by linarith
    then show ?thesis by cases simp_all
  qed
  have "0 \<le> refine red_L red_a red_b Cr hW big_pal ?ti ts \<and> refine red_L red_a red_b Cr hW big_pal ?ti ts < 8" for ts
  proof -
    have "?ti ! 0 = 0" by simp
    then have r: "refine red_L red_a red_b Cr hW big_pal ?ti ts =
        fst (fold (refine_step red_L red_a red_b Cr hW big_pal ?ti ts) [0..<K_SHORTLIST] (0, PInf))"
      unfolding refine_def by simp
    from refine_range[of red_L red_a red_b Cr hW big_pal ?ti ts K_SHORTLIST "(0, PInf)"]
    have "refine red_L red_a red_b Cr hW big_pal ?ti ts = 0 \<or>
          (\<exists>k<K_SHORTLIST. refine red_L red_a red_b Cr hW big_pal ?ti ts = ?ti ! k)"
      unfolding r by auto
    then show ?thesis using v by auto
  qed
  then show ?thesis unfolding big_shortlist fst_conv snd_conv .
qed

lemma black_entry_bytes:
  "pl_r (toPaletteLab [0, 0, 0, 255] 0) = 0" "pl_g (toPaletteLab [0, 0, 0, 255] 0) = 0"
  "pl_b8 (toPaletteLab [0, 0, 0, 255] 0) = 0" "pl_a8 (toPaletteLab [0, 0, 0, 255] 0) = 255"
  by (simp_all add: toPaletteLab_def channel_defs Let_def split: prod.splits)

lemma big_map:
  "mapImageDataToPalette one_red big_palette = Some [0, 0, 0, 255]"
proof -
  have p: "4 \<le> length big_palette" "length big_palette mod 4 = 0"
    by (simp_all add: length_big_palette)
  let ?L = "Larr_of (img_data one_red) (img_width one_red * img_height one_red)"
  let ?A = "Aarr_of (img_data one_red) (img_width one_red * img_height one_red)"
  let ?B = "Barr_of (img_data one_red) (img_width one_red * img_height one_red)"
  from perceptual_map_nth[OF p, of one_red] obtain d' where
    d': "mapImageDataToPalette one_red big_palette = Some d'"
    and len: "length d' = length (img_data one_red)"
    and nth: "\<And>j. d' ! j =
        (if j div 4 < img_width one_red * img_height one_red
         then perceptual_pixel (img_width one_red) (img_height one_red) ?L ?A ?B big_pal
                ((j div 4) mod img_width one_red) ((j div 4) div img_width one_red) (img_data one_red) ! j
         else img_data one_red ! j)"
    unfolding big_pal_def by blast
  have one: "(0::nat) < img_width one_red * img_height one_red" by (simp add: one_red_def)
  have lab: "?L ! (0 * img_width one_red + 0) = red_L" "?A ! (0 * img_width one_red + 0) = red_a"
    "?B ! (0 * img_width one_red + 0) = red_b"
    using lab_arrays_nth[OF one, of "img_data one_red"] by (simp_all add: red_L_def red_a_def red_b_def)
  have best: "perceptual_best (img_width one_red) (img_height one_red) ?L ?A ?B big_pal 0 0
      = toPaletteLab [0, 0, 0, 255] 0"
  proof -
    let ?r = "refine red_L red_a red_b (hypot red_a red_b)
        (hueWeightAt (img_width one_red) (img_height one_red) ?A ?B (int 0) (int 0)) big_pal
        (fst (shortlist red_L red_a red_b big_pal)) (snd (shortlist red_L red_a red_b big_pal))"
    have "0 \<le> ?r \<and> ?r < 8" by (rule big_refine)
    then have "nat ?r < 65536" by linarith
    then have "big_pal ! nat ?r = toPaletteLab [0, 0, 0, 255] 0" by (rule big_pal_nth(1))
    then show ?thesis unfolding perceptual_best_def Let_def lab .
  qed
  have px: "d' ! j = [0, 0, 0, 255] ! j" if j: "j < 4" for j
  proof -
    have dv: "j div 4 = 0" using j by simp
    have "d' ! j = perceptual_pixel (img_width one_red) (img_height one_red) ?L ?A ?B big_pal 0 0
        (img_data one_red) ! j"
      unfolding nth[of j] dv using one by simp
    also have "\<dots> = [0, 0, 0, 255] ! j"
      unfolding perceptual_pixel_nth best black_entry_bytes using j by (simp add: one_red_def)
    finally show ?thesis .
  qed
  have "d' = [0, 0, 0, 255]"
  proof (rule nth_equalityI)
    show "length d' = length [0, 0, 0, 255 :: byte]" using len by (simp add: one_red_def)
    show "d' ! i = [0, 0, 0, 255] ! i" if "i < length d'" for i
      using that len px[of i] by (simp add: one_red_def)
  qed
  then show ?thesis using d' by simp
qed

text \<open>
  Claim C6 fails on the code for a palette of more than 32768 entries. For the one-pixel
  red image and the palette \<open>big_palette\<close>, slot 0 of the shortlist holds the index 0 (a
  black entry) with the raw distance 0 of entry 65536 (red), although the raw distance of
  the black entry is positive: the adjusted cost of that candidate is not its raw
  distance plus the penalties. The mapper writes black, and the palette holds the
  pixel's own colour.
\<close>

theorem refinement_cost_counterexample:
  "fst (shortlist red_L red_a red_b big_pal) ! 0 = 0 \<and>
   snd (shortlist red_L red_a red_b big_pal) ! 0 = Num 0 \<and>
   0 < deltaE00 red_L red_a red_b (pl_L (big_pal ! 0)) (pl_a (big_pal ! 0)) (pl_b (big_pal ! 0)) \<and>
   adjusted_cost red_L red_a red_b (hypot red_a red_b) red_hW
       (big_pal ! nat (fst (shortlist red_L red_a red_b big_pal) ! 0))
       (snd (shortlist red_L red_a red_b big_pal) ! 0)
     \<noteq> Num (claimed_cost red_L red_a red_b red_hW
              (big_pal ! nat (fst (shortlist red_L red_a red_b big_pal) ! 0))) \<and>
   mapImageDataToPalette one_red big_palette = Some [0, 0, 0, 255] \<and>
   drop 262144 big_palette = [255, 0, 0, 255]"
proof -
  have d: "deltaE00 red_L red_a red_b (pl_L (big_pal ! 0)) (pl_a (big_pal ! 0)) (pl_b (big_pal ! 0)) = red_black"
    unfolding big_pal_nth(1)[of 0, simplified] toPaletteLab_lab red_black_def by (simp add: black_lab)
  have ne: "adjusted_cost red_L red_a red_b (hypot red_a red_b) red_hW (big_pal ! 0) (Num 0)
      \<noteq> Num (claimed_cost red_L red_a red_b red_hW (big_pal ! 0))"
  proof
    assume "adjusted_cost red_L red_a red_b (hypot red_a red_b) red_hW (big_pal ! 0) (Num 0)
      = Num (claimed_cost red_L red_a red_b red_hW (big_pal ! 0))"
    then have "adjusted_cost red_L red_a red_b (hypot red_a red_b) red_hW (big_pal ! 0) (Num 0)
      = adjusted_cost red_L red_a red_b (hypot red_a red_b) red_hW (big_pal ! 0)
          (Num (deltaE00 red_L red_a red_b (pl_L (big_pal ! 0)) (pl_a (big_pal ! 0)) (pl_b (big_pal ! 0))))"
      by (simp only: adjusted_cost_claimed)
    then have "0 = red_black" unfolding d by (rule adjusted_cost_base_inj)
    then show False using red_black_pos by simp
  qed
  have dr: "drop 262144 big_palette = [255, 0, 0, 255]"
    by (simp add: big_palette_def length_concat sum_list_replicate)
  show ?thesis
    unfolding big_shortlist fst_conv snd_conv using ne d red_black_pos big_map dr
    by (simp add: big_shortlist)
qed

section \<open>The job controller\<close>

lemma process_finish_out:
  "snd (process_finish msg out s) = [] \<or>
   (\<exists>bmp mt. snd (process_finish msg out s) = [ResultMsg (pm_jobId msg) bmp mt])"
  by (cases out) (simp add: process_finish_def Let_def)

lemma handleProcessMessage_cases:
  "(handleProcessMessage e msg s = (process_begin msg s, []) ) \<or>
   (\<exists>out. process_compute e msg (process_begin msg s) = Some out \<and>
      handleProcessMessage e msg s = process_finish msg out (process_begin msg s))"
  by (simp add: handleProcessMessage_def Let_def split: option.splits)

lemma process_finish_active:
  "activeJobId s = Some (pm_jobId msg) \<Longrightarrow>
   process_finish msg (tx, ty, px) s =
     (s\<lparr>lastRenderedJobId := Some (pm_jobId msg)\<rparr>,
      [ResultMsg (pm_jobId msg) \<lparr>bm_width = nat tx, bm_height = nat ty, bm_pixels = px\<rparr>
         \<lparr>outWidth = tx, outHeight = ty, tilesX = tx, tilesY = ty, totalPixels = tx * ty,
          blockSize = pm_blockSize msg\<rparr>])"
  by (simp add: process_finish_def Let_def)

lemma process_finish_stale:
  "activeJobId s \<noteq> Some (pm_jobId msg) \<Longrightarrow> process_finish msg out s = (s, [])"
  by (cases out) (simp add: process_finish_def)

lemma process_begin_active: "activeJobId (process_begin msg s) = Some (pm_jobId msg)"
  by (simp add: process_begin_def)

lemma handleProcessMessage_out:
  "snd (handleProcessMessage e msg s) = [] \<or>
   (\<exists>bmp mt. snd (handleProcessMessage e msg s) = [ResultMsg (pm_jobId msg) bmp mt])"
proof -
  from handleProcessMessage_cases[of e msg s] show ?thesis
  proof
    assume "handleProcessMessage e msg s = (process_begin msg s, [])"
    then show ?thesis by simp
  next
    assume "\<exists>out. process_compute e msg (process_begin msg s) = Some out \<and>
      handleProcessMessage e msg s = process_finish msg out (process_begin msg s)"
    then obtain out where h: "handleProcessMessage e msg s = process_finish msg out (process_begin msg s)"
      by blast
    show ?thesis unfolding h by (rule process_finish_out)
  qed
qed

lemma handleGenerateBlobMessage_out:
  "snd (handleGenerateBlobMessage e j s) = [] \<or> (\<exists>b. snd (handleGenerateBlobMessage e j s) = [BlobMsg j b])"
  by (auto simp: handleGenerateBlobMessage_def split: option.splits prod.splits)

lemma onmessage_results:
  "length (filter (is_result_for j) (snd (onmessage e m s))) \<le> (if is_process_for j m then 1 else 0)"
proof (cases m)
  case (Process msg)
  then show ?thesis using handleProcessMessage_out[of e msg s]
    by (auto simp: is_result_for_def is_process_for_def)
next
  case (Cancel i)
  then show ?thesis by (simp add: is_process_for_def)
next
  case (GenerateBlob i)
  then show ?thesis using handleGenerateBlobMessage_out[of e i s]
    by (auto simp: is_result_for_def is_process_for_def)
qed

lemma run_results:
  "length (filter (is_result_for j) (snd (run e msgs s))) \<le> length (filter (is_process_for j) msgs)"
proof (induction msgs arbitrary: s)
  case Nil
  show ?case by simp
next
  case (Cons m ms)
  obtain s1 out1 where o: "onmessage e m s = (s1, out1)" by (cases "onmessage e m s")
  obtain s2 out2 where r: "run e ms s1 = (s2, out2)" by (cases "run e ms s1")
  have a: "length (filter (is_result_for j) out1) \<le> (if is_process_for j m then 1 else 0)"
    using onmessage_results[of j e m s] o by simp
  have b: "length (filter (is_result_for j) out2) \<le> length (filter (is_process_for j) ms)"
    using Cons.IH[of s1] r by simp
  show ?case using a b by (auto simp: o r split: if_splits)
qed

lemma handleProcessMessage_active:
  "activeJobId (fst (handleProcessMessage e msg s)) = Some (pm_jobId msg)"
  using handleProcessMessage_cases[of e msg s]
proof
  assume "handleProcessMessage e msg s = (process_begin msg s, [])"
  then show ?thesis by (simp add: process_begin_active)
next
  assume "\<exists>out. process_compute e msg (process_begin msg s) = Some out \<and>
      handleProcessMessage e msg s = process_finish msg out (process_begin msg s)"
  then obtain tx ty px where h: "handleProcessMessage e msg s = process_finish msg (tx, ty, px) (process_begin msg s)"
    by (metis prod_cases3)
  show ?thesis unfolding h process_finish_active[OF process_begin_active]
    by (simp add: process_begin_active)
qed

lemmas worker_eval =
  handleProcessMessage_def process_begin_def process_compute_def process_finish_def render_def
  handleGenerateBlobMessage_def computeTilesDimension_def max1_ceil_div_def
  no_context_env_def solid_env_def job_def red32_def initial_state_def Let_def

lemma job_fields:
  "pm_jobId (job j bs src) = j" "pm_blockSize (job j bs src) = bs" "pm_bitmap (job j bs src) = src"
  "pm_colorizeEnabled (job j bs src) = Some False" "pm_advancedColorize (job j bs src) = None"
  "pm_palette (job j bs src) = None"
  by (simp_all add: job_def)

lemma solid_job_run:
  "handleProcessMessage solid_env (job 1 16 (Some red32)) initial_state =
   (\<lparr>activeJobId = Some 1, lastRenderedJobId = Some 1, lastSourceBitmap = Some red32,
      lastBlockSize = Some 16, lastPalette = None, lastColorizeEnabled = False,
      lastAdvancedColorize = True\<rparr>,
    [ResultMsg 1 \<lparr>bm_width = 2, bm_height = 2,
        bm_pixels = [255,0,0,255, 255,0,0,255, 255,0,0,255, 255,0,0,255]\<rparr>
      \<lparr>outWidth = 2, outHeight = 2, tilesX = 2, tilesY = 2, totalPixels = 4, blockSize = 16\<rparr>])"
  by (simp add: worker_eval numeral_eq_Suc)

lemma no_context_job_run:
  "handleProcessMessage no_context_env (job 1 16 (Some red32)) initial_state =
   (\<lparr>activeJobId = Some 1, lastRenderedJobId = None, lastSourceBitmap = Some red32,
      lastBlockSize = Some 16, lastPalette = None, lastColorizeEnabled = False,
      lastAdvancedColorize = True\<rparr>, [])"
  by (simp add: worker_eval)

lemma solid_blob_run:
  "handleGenerateBlobMessage solid_env j
     \<lparr>activeJobId = Some 1, lastRenderedJobId = Some 1, lastSourceBitmap = Some red32,
      lastBlockSize = Some 16, lastPalette = None, lastColorizeEnabled = False,
      lastAdvancedColorize = True\<rparr> =
   (\<lparr>activeJobId = Some 1, lastRenderedJobId = Some 1, lastSourceBitmap = Some red32,
      lastBlockSize = Some 16, lastPalette = None, lastColorizeEnabled = False,
      lastAdvancedColorize = True\<rparr>,
    if j = 1 then [BlobMsg 1 [255,0,0,255, 255,0,0,255, 255,0,0,255, 255,0,0,255]] else [])"
  by (simp add: handleGenerateBlobMessage_def render_def computeTilesDimension_def
      max1_ceil_div_def solid_env_def red32_def numeral_eq_Suc)

text \<open>
  Claim C1 fails as stated: a job that finds no 2d context emits nothing, and has
  already replaced the stored block size and source image.
\<close>

theorem session_state_counterexample:
  "snd (handleProcessMessage no_context_env (job 1 16 (Some red32)) initial_state) = [] \<and>
   lastBlockSize (fst (handleProcessMessage no_context_env (job 1 16 (Some red32)) initial_state))
     \<noteq> lastBlockSize initial_state \<and>
   lastSourceBitmap (fst (handleProcessMessage no_context_env (job 1 16 (Some red32)) initial_state))
     \<noteq> lastSourceBitmap initial_state"
  by (simp add: handleProcessMessage_def process_begin_def process_compute_def render_def
      computeTilesDimension_def max1_ceil_div_def no_context_env_def job_def red32_def
      initial_state_def Let_def)

text \<open>
  Claim C1, amended. Of the session state only the last completed job id is reserved to
  jobs that emit: a process job that emits nothing leaves it as it was, and one that emits
  sets it to its own id. The other fields (source image, block size, colorize flags,
  palette) are assigned from the message at the start of every process job, whatever its
  outcome. An export request changes nothing, and a cancel request at most the active id.
\<close>

theorem session_state_update_frame:
  "(snd (handleProcessMessage e msg s) = [] \<longrightarrow>
      lastRenderedJobId (fst (handleProcessMessage e msg s)) = lastRenderedJobId s) \<and>
   (snd (handleProcessMessage e msg s) \<noteq> [] \<longrightarrow>
      lastRenderedJobId (fst (handleProcessMessage e msg s)) = Some (pm_jobId msg)) \<and>
   lastBlockSize (fst (handleProcessMessage e msg s)) = Some (pm_blockSize msg) \<and>
   lastSourceBitmap (fst (handleProcessMessage e msg s)) =
     (case pm_bitmap msg of Some b \<Rightarrow> Some b | None \<Rightarrow> lastSourceBitmap s) \<and>
   lastColorizeEnabled (fst (handleProcessMessage e msg s)) =
     (case pm_colorizeEnabled msg of Some c \<Rightarrow> c | None \<Rightarrow> True) \<and>
   lastAdvancedColorize (fst (handleProcessMessage e msg s)) =
     (case pm_advancedColorize msg of Some c \<Rightarrow> c | None \<Rightarrow> True) \<and>
   lastPalette (fst (handleProcessMessage e msg s)) =
     (case pm_palette msg of
        Some p \<Rightarrow> if length p \<ge> RGBA_STRIDE then Some (map toUint8Clamp p) else None
      | None \<Rightarrow> None) \<and>
   fst (handleGenerateBlobMessage e j s) = s \<and>
   fst (onmessage e (Cancel j) s) = s\<lparr>activeJobId := activeJobId (fst (onmessage e (Cancel j) s))\<rparr>"
proof -
  let ?s1 = "process_begin msg s"
  have fields: "lastRenderedJobId ?s1 = lastRenderedJobId s"
    "lastBlockSize ?s1 = Some (pm_blockSize msg)"
    "lastSourceBitmap ?s1 = (case pm_bitmap msg of Some b \<Rightarrow> Some b | None \<Rightarrow> lastSourceBitmap s)"
    "lastColorizeEnabled ?s1 = (case pm_colorizeEnabled msg of Some c \<Rightarrow> c | None \<Rightarrow> True)"
    "lastAdvancedColorize ?s1 = (case pm_advancedColorize msg of Some c \<Rightarrow> c | None \<Rightarrow> True)"
    "lastPalette ?s1 = (case pm_palette msg of
        Some p \<Rightarrow> if length p \<ge> RGBA_STRIDE then Some (map toUint8Clamp p) else None
      | None \<Rightarrow> None)"
    by (simp_all add: process_begin_def)
  have blob: "fst (handleGenerateBlobMessage e j s) = s"
    by (simp add: handleGenerateBlobMessage_def split: option.splits prod.splits)
  have cancel: "fst (onmessage e (Cancel j) s) = s\<lparr>activeJobId := activeJobId (fst (onmessage e (Cancel j) s))\<rparr>"
    by simp
  from handleProcessMessage_cases[of e msg s] show ?thesis
  proof
    assume "handleProcessMessage e msg s = (?s1, [])"
    then show ?thesis using fields blob cancel by simp
  next
    assume "\<exists>out. process_compute e msg ?s1 = Some out \<and>
      handleProcessMessage e msg s = process_finish msg out ?s1"
    then obtain tx ty px where h: "handleProcessMessage e msg s = process_finish msg (tx, ty, px) ?s1"
      by (metis prod_cases3)
    show ?thesis unfolding h process_finish_active[OF process_begin_active]
      using fields blob cancel by simp
  qed
qed

theorem session_state_update_frame_witness:
  "snd (handleProcessMessage no_context_env (job 1 16 (Some red32)) initial_state) = [] \<and>
   lastRenderedJobId (fst (handleProcessMessage no_context_env (job 1 16 (Some red32)) initial_state))
     = lastRenderedJobId initial_state \<and>
   snd (handleProcessMessage solid_env (job 1 16 (Some red32)) initial_state) \<noteq> [] \<and>
   lastRenderedJobId (fst (handleProcessMessage solid_env (job 1 16 (Some red32)) initial_state))
     = Some 1"
  using session_state_update_frame[where e = no_context_env and msg = "job 1 16 (Some red32)" and s = initial_state]
    session_state_update_frame[where e = solid_env and msg = "job 1 16 (Some red32)" and s = initial_state]
  by (simp add: solid_job_run no_context_job_run job_fields)

text \<open>
  Claim C5. After any sequence of messages: a submitted job is the active one at once and
  when its handler returns; a job that is not the active one when its compute is done
  emits nothing and changes nothing; a job emits at most one message, and the results for
  a job id are at most as many as its submissions; cancelling the active id clears it, so
  that the job's completion emits nothing; cancelling another id changes nothing.
\<close>

theorem last_submitted_wins:
  "activeJobId (process_begin msg (fst (run e msgs s0))) = Some (pm_jobId msg) \<and>
   activeJobId (fst (onmessage e (Process msg) (fst (run e msgs s0)))) = Some (pm_jobId msg) \<and>
   (activeJobId s' \<noteq> Some (pm_jobId msg) \<longrightarrow> process_finish msg out s' = (s', [])) \<and>
   length (snd (onmessage e (Process msg) (fst (run e msgs s0)))) \<le> 1 \<and>
   length (filter (is_result_for j) (snd (run e msgs s0))) \<le> length (filter (is_process_for j) msgs) \<and>
   (activeJobId (fst (run e msgs s0)) = Some (pm_jobId msg) \<longrightarrow>
      activeJobId (fst (onmessage e (Cancel (pm_jobId msg)) (fst (run e msgs s0)))) = None \<and>
      process_finish msg out (fst (onmessage e (Cancel (pm_jobId msg)) (fst (run e msgs s0))))
        = (fst (onmessage e (Cancel (pm_jobId msg)) (fst (run e msgs s0))), [])) \<and>
   (activeJobId (fst (run e msgs s0)) \<noteq> Some j \<longrightarrow>
      onmessage e (Cancel j) (fst (run e msgs s0)) = (fst (run e msgs s0), []))"
proof -
  let ?s = "fst (run e msgs s0)"
  have "length (snd (onmessage e (Process msg) ?s)) \<le> 1"
    using handleProcessMessage_out[of e msg ?s] by auto
  moreover have "activeJobId ?s = Some (pm_jobId msg) \<longrightarrow>
      activeJobId (fst (onmessage e (Cancel (pm_jobId msg)) ?s)) = None \<and>
      process_finish msg out (fst (onmessage e (Cancel (pm_jobId msg)) ?s))
        = (fst (onmessage e (Cancel (pm_jobId msg)) ?s), [])"
    by (simp add: process_finish_stale)
  ultimately show ?thesis
    using process_begin_active[of msg ?s] handleProcessMessage_active[of e msg ?s]
      process_finish_stale[of s' msg out] run_results[of j e msgs s0]
    by simp
qed

theorem last_submitted_wins_witness:
  "activeJobId (fst (run solid_env [Process (job 1 16 (Some red32))] initial_state)) = Some 1 \<and>
   activeJobId (fst (onmessage solid_env (Cancel 1)
      (fst (run solid_env [Process (job 1 16 (Some red32))] initial_state)))) = None \<and>
   snd (process_finish (job 1 16 (Some red32)) (2, 2, [])
      (fst (onmessage solid_env (Cancel 1)
         (fst (run solid_env [Process (job 1 16 (Some red32))] initial_state))))) = [] \<and>
   activeJobId (fst (onmessage solid_env (Cancel 2)
      (fst (run solid_env [Process (job 1 16 (Some red32))] initial_state)))) = Some 1"
  using last_submitted_wins[where e = solid_env and msgs = "[Process (job 1 16 (Some red32))]" and ?s0.0 = initial_state
      and msg = "job 1 16 (Some red32)" and out = "(2, 2, [])" and j = 2]
  by (simp add: solid_job_run job_fields process_finish_def)

lemma ceil_div_pos:
  assumes "0 < b"
  shows "\<lceil>real W / real_of_int b\<rceil> = (int W + b - 1) div b"
proof (rule ceiling_unique)
  define q where "q = (int W + b - 1) div b"
  define r where "r = (int W + b - 1) mod b"
  have r: "0 \<le> r" "r < b" using assms by (simp_all add: r_def)
  have "int W + b - 1 = q * b + r" by (simp add: q_def r_def)
  then have qb: "q * b = int W + b - 1 - r" by simp
  have up: "int W \<le> q * b" using qb r by simp
  have lo: "(q - 1) * b < int W" using qb r by (simp add: algebra_simps)
  have "real_of_int (int W) \<le> real_of_int (q * b)" using up by (simp only: of_int_le_iff)
  then show "real W / real_of_int b \<le> real_of_int ((int W + b - 1) div b)"
    using assms by (simp add: q_def[symmetric] pos_divide_le_eq)
  have "real_of_int ((q - 1) * b) < real_of_int (int W)" using lo by (simp only: of_int_less_iff)
  then show "real_of_int ((int W + b - 1) div b) - 1 < real W / real_of_int b"
    using assms by (simp add: q_def[symmetric] pos_less_divide_eq)
qed

lemma max1_ceil_div_pos:
  assumes "0 < W" "0 < b"
  shows "max1_ceil_div W b = Num ((int W + b - 1) div b)"
    and "1 \<le> (int W + b - 1) div b"
proof -
  have "b \<le> int W + b - 1" using assms by simp
  then have "b div b \<le> (int W + b - 1) div b" using assms(2) zdiv_mono1 by blast
  then show ge: "1 \<le> (int W + b - 1) div b" using assms(2) by simp
  show "max1_ceil_div W b = Num ((int W + b - 1) div b)"
    using assms ge by (simp add: max1_ceil_div_def ceil_div_pos)
qed

lemma render_tiles:
  assumes "render e s src bs = Some (tx, ty, px)"
  shows "computeTilesDimension (bm_width src) (bm_height src) bs = (Num tx, Num ty)"
    and "env_getContext e tx ty"
  using assms
  by (auto simp: render_def Let_def split: prod.splits jsnum.splits if_splits option.splits)

lemma max1_ceil_div_ge1: "max1_ceil_div W b = Num n \<Longrightarrow> 1 \<le> n"
  by (auto simp: max1_ceil_div_def split: if_splits)

lemma handleProcessMessage_result:
  assumes "ResultMsg j bmp mt \<in> set (snd (handleProcessMessage e msg s))"
  shows "\<exists>src px. lastSourceBitmap (fst (handleProcessMessage e msg s)) = Some src \<and>
           render e (process_begin msg s) src (pm_blockSize msg) = Some (tilesX mt, tilesY mt, px) \<and>
           j = pm_jobId msg \<and>
           bmp = \<lparr>bm_width = nat (tilesX mt), bm_height = nat (tilesY mt), bm_pixels = px\<rparr> \<and>
           mt = \<lparr>outWidth = tilesX mt, outHeight = tilesY mt, tilesX = tilesX mt, tilesY = tilesY mt,
                  totalPixels = tilesX mt * tilesY mt, blockSize = pm_blockSize msg\<rparr> \<and>
           snd (handleProcessMessage e msg s) = [ResultMsg j bmp mt]"
proof -
  let ?s1 = "process_begin msg s"
  from handleProcessMessage_cases[of e msg s] assms
  obtain out where c: "process_compute e msg ?s1 = Some out"
    and h: "handleProcessMessage e msg s = process_finish msg out ?s1"
    by auto
  obtain tx ty px where out: "out = (tx, ty, px)" by (cases out) auto
  from c obtain src where src: "lastSourceBitmap ?s1 = Some src"
    and r: "render e ?s1 src (pm_blockSize msg) = Some (tx, ty, px)"
    unfolding out by (auto simp: process_compute_def split: option.splits)
  show ?thesis
    using assms src r unfolding h out process_finish_active[OF process_begin_active]
    by (intro exI[of _ src] exI[of _ px]) auto
qed

text \<open>
  Claim C8. For positive \<open>W\<close>, \<open>H\<close> and \<open>b\<close> the tile grid is
  \<open>max 1 (ceil (W / b))\<close> by \<open>max 1 (ceil (H / b))\<close>, that is \<open>(W + b - 1) div b\<close> by
  \<open>(H + b - 1) div b\<close>, at least 1x1. An emitted result carries the grid of the stored
  source at the job's block size as \<open>tilesX\<close>, \<open>tilesY\<close>, \<open>outWidth\<close> and \<open>outHeight\<close>, and
  their product as \<open>totalPixels\<close>.
\<close>

theorem tile_grid_dimensions:
  "(0 < W \<and> 0 < H \<and> 0 < b \<longrightarrow>
      computeTilesDimension W H b =
        (Num (max 1 \<lceil>real W / real_of_int b\<rceil>), Num (max 1 \<lceil>real H / real_of_int b\<rceil>)) \<and>
      max 1 \<lceil>real W / real_of_int b\<rceil> = (int W + b - 1) div b \<and>
      max 1 \<lceil>real H / real_of_int b\<rceil> = (int H + b - 1) div b \<and>
      1 \<le> max 1 \<lceil>real W / real_of_int b\<rceil> \<and> 1 \<le> max 1 \<lceil>real H / real_of_int b\<rceil>) \<and>
   (ResultMsg j bmp mt \<in> set (snd (handleProcessMessage e msg s)) \<longrightarrow>
      (\<exists>src. lastSourceBitmap (fst (handleProcessMessage e msg s)) = Some src \<and>
         computeTilesDimension (bm_width src) (bm_height src) (pm_blockSize msg)
           = (Num (tilesX mt), Num (tilesY mt))) \<and>
      outWidth mt = tilesX mt \<and> outHeight mt = tilesY mt \<and>
      totalPixels mt = tilesX mt * tilesY mt \<and> 1 \<le> tilesX mt \<and> 1 \<le> tilesY mt)"
proof (intro conjI impI)
  assume p: "0 < W \<and> 0 < H \<and> 0 < b"
  then have w: "max1_ceil_div W b = Num ((int W + b - 1) div b)" "1 \<le> (int W + b - 1) div b"
    and h: "max1_ceil_div H b = Num ((int H + b - 1) div b)" "1 \<le> (int H + b - 1) div b"
    using max1_ceil_div_pos by simp_all
  have cw: "\<lceil>real W / real_of_int b\<rceil> = (int W + b - 1) div b"
    and ch: "\<lceil>real H / real_of_int b\<rceil> = (int H + b - 1) div b"
    using p ceil_div_pos by simp_all
  show "computeTilesDimension W H b =
        (Num (max 1 \<lceil>real W / real_of_int b\<rceil>), Num (max 1 \<lceil>real H / real_of_int b\<rceil>))"
    using p by (simp add: computeTilesDimension_def max1_ceil_div_def)
  show "max 1 \<lceil>real W / real_of_int b\<rceil> = (int W + b - 1) div b" using cw w(2) by simp
  show "max 1 \<lceil>real H / real_of_int b\<rceil> = (int H + b - 1) div b" using ch h(2) by simp
  show "1 \<le> max 1 \<lceil>real W / real_of_int b\<rceil>" by simp
  show "1 \<le> max 1 \<lceil>real H / real_of_int b\<rceil>" by simp
next
  assume a: "ResultMsg j bmp mt \<in> set (snd (handleProcessMessage e msg s))"
  from handleProcessMessage_result[OF a] obtain src px where
    src: "lastSourceBitmap (fst (handleProcessMessage e msg s)) = Some src"
    and r: "render e (process_begin msg s) src (pm_blockSize msg) = Some (tilesX mt, tilesY mt, px)"
    and mt: "mt = \<lparr>outWidth = tilesX mt, outHeight = tilesY mt, tilesX = tilesX mt, tilesY = tilesY mt,
                  totalPixels = tilesX mt * tilesY mt, blockSize = pm_blockSize msg\<rparr>"
    by blast
  have t: "computeTilesDimension (bm_width src) (bm_height src) (pm_blockSize msg)
           = (Num (tilesX mt), Num (tilesY mt))"
    using render_tiles(1)[OF r] .
  show "\<exists>src. lastSourceBitmap (fst (handleProcessMessage e msg s)) = Some src \<and>
         computeTilesDimension (bm_width src) (bm_height src) (pm_blockSize msg)
           = (Num (tilesX mt), Num (tilesY mt))"
    using src t by blast
  show "outWidth mt = tilesX mt" by (subst mt) simp
  show "outHeight mt = tilesY mt" by (subst mt) simp
  show "totalPixels mt = tilesX mt * tilesY mt" by (subst mt) simp
  show "1 \<le> tilesX mt" using t max1_ceil_div_ge1 by (auto simp: computeTilesDimension_def)
  show "1 \<le> tilesY mt" using t max1_ceil_div_ge1 by (auto simp: computeTilesDimension_def)
qed

theorem tile_grid_dimensions_witness:
  "(0::nat) < 32 \<and> (0::int) < 16 \<and>
   computeTilesDimension 32 32 16 = (Num 2, Num 2) \<and>
   snd (handleProcessMessage solid_env (job 1 16 (Some red32)) initial_state) =
     [ResultMsg 1 \<lparr>bm_width = 2, bm_height = 2,
        bm_pixels = [255,0,0,255, 255,0,0,255, 255,0,0,255, 255,0,0,255]\<rparr>
      \<lparr>outWidth = 2, outHeight = 2, tilesX = 2, tilesY = 2, totalPixels = 4, blockSize = 16\<rparr>]"
  using tile_grid_dimensions[where W = 32 and H = 32 and b = 16 and e = solid_env and msg = "job 1 16 (Some red32)"
      and s = initial_state and j = 1
      and bmp = "\<lparr>bm_width = 2, bm_height = 2,
        bm_pixels = [255,0,0,255, 255,0,0,255, 255,0,0,255, 255,0,0,255]\<rparr>"
      and mt = "\<lparr>outWidth = 2, outHeight = 2, tilesX = 2, tilesY = 2, totalPixels = 4, blockSize = 16\<rparr>"]
  by (simp add: solid_job_run computeTilesDimension_def max1_ceil_div_def)

text \<open>
  Claim C9. An export request never changes the state. It emits a file only if the
  requested id is the last emitted job id and a source image and a block size are stored;
  when one of the three fails it emits nothing.
\<close>

theorem export_guard:
  "fst (handleGenerateBlobMessage e j s) = s \<and>
   (snd (handleGenerateBlobMessage e j s) \<noteq> [] \<longrightarrow>
      lastRenderedJobId s = Some j \<and> lastSourceBitmap s \<noteq> None \<and> lastBlockSize s \<noteq> None \<and>
      (\<exists>b. snd (handleGenerateBlobMessage e j s) = [BlobMsg j b])) \<and>
   (lastRenderedJobId s \<noteq> Some j \<or> lastSourceBitmap s = None \<or> lastBlockSize s = None \<longrightarrow>
      handleGenerateBlobMessage e j s = (s, []))"
proof (intro conjI impI)
  show "fst (handleGenerateBlobMessage e j s) = s"
    by (simp add: handleGenerateBlobMessage_def split: option.splits prod.splits)
next
  assume a: "snd (handleGenerateBlobMessage e j s) \<noteq> []"
  then show "lastRenderedJobId s = Some j" "lastSourceBitmap s \<noteq> None" "lastBlockSize s \<noteq> None"
    by (auto simp: handleGenerateBlobMessage_def split: option.splits prod.splits if_splits)
  show "\<exists>b. snd (handleGenerateBlobMessage e j s) = [BlobMsg j b]"
    using a handleGenerateBlobMessage_out[of e j s] by blast
next
  assume "lastRenderedJobId s \<noteq> Some j \<or> lastSourceBitmap s = None \<or> lastBlockSize s = None"
  then show "handleGenerateBlobMessage e j s = (s, [])"
    by (auto simp: handleGenerateBlobMessage_def split: option.splits prod.splits)
qed

theorem export_guard_witness:
  "lastRenderedJobId (fst (handleProcessMessage solid_env (job 1 16 (Some red32)) initial_state)) = Some 1 \<and>
   snd (handleGenerateBlobMessage solid_env 1
      (fst (handleProcessMessage solid_env (job 1 16 (Some red32)) initial_state)))
     = [BlobMsg 1 [255,0,0,255, 255,0,0,255, 255,0,0,255, 255,0,0,255]] \<and>
   snd (handleGenerateBlobMessage solid_env 2
      (fst (handleProcessMessage solid_env (job 1 16 (Some red32)) initial_state))) = []"
  using export_guard[where e = solid_env and j = 1
      and s = "fst (handleProcessMessage solid_env (job 1 16 (Some red32)) initial_state)"]
    export_guard[where e = solid_env and j = 2
      and s = "fst (handleProcessMessage solid_env (job 1 16 (Some red32)) initial_state)"]
  by (simp add: solid_job_run solid_blob_run)

section \<open>The palette parser\<close>

lemmas parser_defs = hexToRgbaComponents_def toLowerCase_def lower_char_def trim_def isWhiteSpace_def
  parseInt16_def isHexDigit_def hexDigitValue_def slice_def HEX_TRIPLET_LEN_def HEX_SIX_LEN_def
  FULLY_OPAQUE_ALPHA_def TRANSPARENT_RGBA_def Let_def

lemma hex_digit_plain:
  assumes "isHexDigit c"
  shows "\<not> isWhiteSpace c" "c \<noteq> CHR ''-''" "c \<noteq> CHR ''+''" "c \<noteq> CHR ''x''" "c \<noteq> CHR ''X''" "c \<noteq> CHR ''#''"
  using assms by (auto simp: isHexDigit_def isWhiteSpace_def Let_def)

lemma parseInt16_two_digits:
  assumes "isHexDigit c0" "isHexDigit c1"
  shows "parseInt16 [c0, c1] = Num (16 * hexDigitValue c0 + hexDigitValue c1)"
  using assms hex_digit_plain[OF assms(1)] hex_digit_plain[OF assms(2)]
  by (simp add: parseInt16_def Let_def)

lemma hexDigitValue_range: "isHexDigit c \<Longrightarrow> 0 \<le> hexDigitValue c \<and> hexDigitValue c \<le> 15"
  by (auto simp: isHexDigit_def hexDigitValue_def Let_def)

lemma trim_plain:
  assumes "s \<noteq> []" "\<not> isWhiteSpace (hd s)" "\<not> isWhiteSpace (last s)"
  shows "trim s = s"
proof -
  have 1: "dropWhile isWhiteSpace s = s" using assms(1,2) by (cases s) auto
  have 2: "dropWhile isWhiteSpace (rev s) = rev s"
  proof (cases "rev s")
    case Nil
    then show ?thesis by simp
  next
    case (Cons c cs)
    then have "last s = c" using hd_rev[of s] by simp
    then show ?thesis using assms(3) Cons by simp
  qed
  show ?thesis by (simp add: trim_def 1 2)
qed

lemma not_transparent_short:
  "length s \<noteq> 11 \<Longrightarrow> toLowerCase s \<noteq> ''transparent''"
  by (auto simp: toLowerCase_def dest: arg_cong[where f = length])

lemma hex3:
  assumes "isHexDigit c0" "isHexDigit c1" "isHexDigit c2"
  shows "hexToRgbaComponents [c0, c1, c2] =
           Some (Num (17 * hexDigitValue c0), Num (17 * hexDigitValue c1), Num (17 * hexDigitValue c2), Num 255)"
    and "hexToRgbaComponents [CHR ''#'', c0, c1, c2] =
           Some (Num (17 * hexDigitValue c0), Num (17 * hexDigitValue c1), Num (17 * hexDigitValue c2), Num 255)"
proof -
  have t: "trim [c0, c1, c2] = [c0, c1, c2]" "trim [CHR ''#'', c0, c1, c2] = [CHR ''#'', c0, c1, c2]"
    using hex_digit_plain(1)[OF assms(1)] hex_digit_plain(1)[OF assms(3)]
    by (simp_all add: trim_plain isWhiteSpace_def)
  have n: "toLowerCase [c0, c1, c2] \<noteq> ''transparent''" "toLowerCase [CHR ''#'', c0, c1, c2] \<noteq> ''transparent''"
    by (simp_all add: not_transparent_short)
  show "hexToRgbaComponents [c0, c1, c2] =
           Some (Num (17 * hexDigitValue c0), Num (17 * hexDigitValue c1), Num (17 * hexDigitValue c2), Num 255)"
    using n(1) hex_digit_plain(6)[OF assms(1)] assms
    by (simp add: hexToRgbaComponents_def t Let_def parseInt16_two_digits HEX_TRIPLET_LEN_def FULLY_OPAQUE_ALPHA_def)
  show "hexToRgbaComponents [CHR ''#'', c0, c1, c2] =
           Some (Num (17 * hexDigitValue c0), Num (17 * hexDigitValue c1), Num (17 * hexDigitValue c2), Num 255)"
    using n(2) assms
    by (simp add: hexToRgbaComponents_def t Let_def parseInt16_two_digits HEX_TRIPLET_LEN_def FULLY_OPAQUE_ALPHA_def)
qed

lemma hex6:
  assumes "isHexDigit c0" "isHexDigit c1" "isHexDigit c2" "isHexDigit c3" "isHexDigit c4" "isHexDigit c5"
  shows "hexToRgbaComponents [c0, c1, c2, c3, c4, c5] =
           Some (Num (16 * hexDigitValue c0 + hexDigitValue c1), Num (16 * hexDigitValue c2 + hexDigitValue c3),
                 Num (16 * hexDigitValue c4 + hexDigitValue c5), Num 255)"
    and "hexToRgbaComponents [CHR ''#'', c0, c1, c2, c3, c4, c5] =
           Some (Num (16 * hexDigitValue c0 + hexDigitValue c1), Num (16 * hexDigitValue c2 + hexDigitValue c3),
                 Num (16 * hexDigitValue c4 + hexDigitValue c5), Num 255)"
proof -
  have t: "trim [c0, c1, c2, c3, c4, c5] = [c0, c1, c2, c3, c4, c5]"
    "trim [CHR ''#'', c0, c1, c2, c3, c4, c5] = [CHR ''#'', c0, c1, c2, c3, c4, c5]"
    using hex_digit_plain(1)[OF assms(1)] hex_digit_plain(1)[OF assms(6)]
    by (simp_all add: trim_plain isWhiteSpace_def)
  have n: "toLowerCase [c0, c1, c2, c3, c4, c5] \<noteq> ''transparent''"
    "toLowerCase [CHR ''#'', c0, c1, c2, c3, c4, c5] \<noteq> ''transparent''"
    by (simp_all add: not_transparent_short)
  show "hexToRgbaComponents [c0, c1, c2, c3, c4, c5] =
           Some (Num (16 * hexDigitValue c0 + hexDigitValue c1), Num (16 * hexDigitValue c2 + hexDigitValue c3),
                 Num (16 * hexDigitValue c4 + hexDigitValue c5), Num 255)"
    using n(1) hex_digit_plain(6)[OF assms(1)] assms
    by (simp add: hexToRgbaComponents_def t Let_def parseInt16_two_digits slice_def
        HEX_TRIPLET_LEN_def HEX_SIX_LEN_def FULLY_OPAQUE_ALPHA_def)
  show "hexToRgbaComponents [CHR ''#'', c0, c1, c2, c3, c4, c5] =
           Some (Num (16 * hexDigitValue c0 + hexDigitValue c1), Num (16 * hexDigitValue c2 + hexDigitValue c3),
                 Num (16 * hexDigitValue c4 + hexDigitValue c5), Num 255)"
    using n(2) assms
    by (simp add: hexToRgbaComponents_def t Let_def parseInt16_two_digits slice_def
        HEX_TRIPLET_LEN_def HEX_SIX_LEN_def FULLY_OPAQUE_ALPHA_def)
qed

lemma hex_other_length:
  assumes "toLowerCase hex \<noteq> ''transparent''"
    and "length (if trim hex \<noteq> [] \<and> hd (trim hex) = CHR ''#'' then drop 1 (trim hex) else trim hex) \<notin> {3, 6}"
  shows "hexToRgbaComponents hex = None"
  using assms by (simp add: hexToRgbaComponents_def Let_def HEX_TRIPLET_LEN_def HEX_SIX_LEN_def)

lemma hex_scenarios:
  "hexToRgbaComponents ''f00'' = Some (Num 255, Num 0, Num 0, Num 255)"
  "hexToRgbaComponents ''transparent'' = Some (Num 0, Num 0, Num 0, Num 0)"
  "hexToRgbaComponents ''#1A2b3C'' = Some (Num 26, Num 43, Num 60, Num 255)"
  "hexToRgbaComponents ''1z2z3z'' = Some (Num 1, Num 2, Num 3, Num 255)"
  "hexToRgbaComponents ''#12345'' = None"
  by (simp_all add: parser_defs)

text \<open>
  Claim C2 fails on the code for a string of three or six characters that are not
  hexadecimal digits: \<^verbatim>\<open>"zzzzzz"\<close> parses to (NaN, NaN, NaN, 255), is pushed into the
  flattened palette, and reaches the worker as opaque black. The other parts of the claim
  are \<open>hex_scenarios\<close>, \<open>hex3\<close>, \<open>hex6\<close> and \<open>hex_other_length\<close>.
\<close>

theorem hex_parser_keeps_non_hex_colours:
  "hexToRgbaComponents ''zzzzzz'' = Some (NaN, NaN, NaN, Num 255) \<and>
   selectedPaletteArray [\<lparr>pe_key = ''k1'', pe_hex = ''zzzzzz'', pe_isPremium = False\<rparr>] [''k1'']
     = [NaN, NaN, NaN, Num 255] \<and>
   map toUint8Clamp [NaN, NaN, NaN, Num 255] = [0, 0, 0, 255]"
  by (simp add: selectedPaletteArray_def parser_defs RGBA_STRIDE_def toUint8Clamp_def)

end
